theory Spec2Isabelle
  imports Main "HOL-Library.Word"
begin

unbundle bit_operations_syntax

section \<open>Machine types\<close>

type_synonym u8 = "8 word"

type_synonym u32 = "32 word"

type_synonym u64 = "64 word"

text \<open>An address of the flat 64-bit address space; \<open>int32_t *lock\<close> is one of these.\<close>

type_synonym addr = "64 word"

section \<open>The cycle counter: \<open>src/core/rdtsc.c\<close>\<close>

text \<open>
  \<open>__dpdk_rdtsc\<close> (and its twin \<open>rte_rdtsc\<close> in \<open>tsx.c\<close>) declares a union of one
  \<open>uint64_t tsc_64\<close> with an anonymous struct \<open>{ uint32_t lo_32; uint32_t hi_32; }\<close>.
  The \<open>rdtsc\<close> instruction delivers EAX into \<open>lo_32\<close> and EDX into \<open>hi_32\<close>, and the
  function returns \<open>tsc_64\<close>. The union is modelled as the eight bytes it occupies:
  \<open>lo_32\<close> at offsets 0..3, \<open>hi_32\<close> at offsets 4..7, every scalar little-endian (the
  instruction exists on x86 only).
\<close>

definition bytes_of_u32 :: "u32 \<Rightarrow> u8 list" where
  "bytes_of_u32 w = [ucast w, ucast (drop_bit 8 w), ucast (drop_bit 16 w), ucast (drop_bit 24 w)]"

fun u64_of_bytes :: "u8 list \<Rightarrow> u64" where
  "u64_of_bytes [] = 0"
| "u64_of_bytes (b # bs) = ucast b OR push_bit 8 (u64_of_bytes bs)"

text \<open>The union after the \<open>rdtsc\<close> instruction has written both halves.\<close>

definition tsc_union :: "u32 \<Rightarrow> u32 \<Rightarrow> u8 list" where
  "tsc_union lo_32 hi_32 = bytes_of_u32 lo_32 @ bytes_of_u32 hi_32"

definition dpdk_rdtsc :: "u32 \<Rightarrow> u32 \<Rightarrow> u64" where
  "dpdk_rdtsc lo_32 hi_32 = u64_of_bytes (tsc_union lo_32 hi_32)"

section \<open>The transaction primitives and constants: \<open>src/core/tsx.c\<close>\<close>

definition RTE_XBEGIN_STARTED :: u32 where
  "RTE_XBEGIN_STARTED = NOT 0"

definition RTE_XABORT_EXPLICIT :: u32 where
  "RTE_XABORT_EXPLICIT = push_bit 0 1"

definition RTE_XABORT_RETRY :: u32 where
  "RTE_XABORT_RETRY = push_bit 1 1"

definition RTE_XABORT_CONFLICT :: u32 where
  "RTE_XABORT_CONFLICT = push_bit 2 1"

definition RTE_XABORT_CAPACITY :: u32 where
  "RTE_XABORT_CAPACITY = push_bit 3 1"

definition RTE_XABORT_DEBUG :: u32 where
  "RTE_XABORT_DEBUG = push_bit 4 1"

definition RTE_XABORT_NESTED :: u32 where
  "RTE_XABORT_NESTED = push_bit 5 1"

definition RTE_XABORT_CODE :: "u32 \<Rightarrow> u32" where
  "RTE_XABORT_CODE x = drop_bit 24 x AND 0xff"

definition RTE_RTM_MAX_RETRIES :: u32 where
  "RTE_RTM_MAX_RETRIES = 20"

definition RTE_XABORT_LOCK_BUSY :: u32 where
  "RTE_XABORT_LOCK_BUSY = 0xff"

subsection \<open>The machine as the function sees it\<close>

text \<open>
  Everything \<open>rte_try_tm\<close> takes from outside is scripted, one script per instruction
  site, indexed by how often that site has run:
  \<^item> \<open>xbegin_at n\<close>: EAX after the \<open>n\<close>-th \<open>XBEGIN\<close> (line 32). \<open>ret\<close> is initialised
    with all ones and the instruction leaves it alone when the transaction starts;
    any other value is the abort status of a transaction that did not start or was
    rolled back by the hardware.
  \<^item> \<open>txn_lock_at n\<close>: what the \<open>n\<close>-th read of \<open>*lock\<close> inside a started transaction
    (line 78) loads.
  \<^item> \<open>wait_lock_at n\<close>: what the \<open>n\<close>-th read of \<open>*lock\<close> of the busy-wait (line 84)
    loads. Other threads write the flag, so successive reads are unrelated.
  \<^item> \<open>tsc_at n\<close>: EAX and EDX of the \<open>n\<close>-th \<open>rdtsc\<close> (line 67).

  A run ends when \<open>rte_try_tm\<close> returns. The hardware may still abort the transaction
  later, inside the caller's critical section, and resume after the \<open>XBEGIN\<close> of
  line 32 once more; that second life of the call is not followed. \<open>rte_xend\<close> and
  \<open>rte_xtest\<close> are not called by \<open>rte_try_tm\<close> and have no model here.
\<close>

record env =
  xbegin_at :: "nat \<Rightarrow> u32"
  txn_lock_at :: "nat \<Rightarrow> u32"
  wait_lock_at :: "nat \<Rightarrow> u32"
  tsc_at :: "nat \<Rightarrow> u32 \<times> u32"

text \<open>
  What the function does to the machine, in program order. \<open>Store\<close> is part of the
  vocabulary of memory events; \<open>rte_try_tm\<close> has no assignment through \<open>lock\<close> and its
  model emits none.
\<close>

datatype event =
    XBegin u32
  | XAbort u32
  | Load addr u32
  | Store addr u32
  | Rdtsc u64

text \<open>
  One back-off (lines 91..96) as the function computed it: the counter \<open>retries\<close>,
  \<open>try_count\<close>, the value \<open>rte_rdtsc\<close> returned and the final \<open>pause_count\<close>.
\<close>

record backoff_rec =
  bo_retries :: u32
  bo_try_count :: u32
  bo_tsc :: u64
  bo_pause_count :: u32

text \<open>
  The machine: how often each of the four sites has run, the pauses executed, the
  events in program order and the back-offs made.
\<close>

record hw =
  xbegins :: nat
  txn_reads :: nat
  wait_reads :: nat
  tscs :: nat
  pauses :: nat
  trace :: "event list"
  backoffs :: "backoff_rec list"

definition hw0 :: hw where
  "hw0 = \<lparr>xbegins = 0, txn_reads = 0, wait_reads = 0, tscs = 0, pauses = 0,
          trace = [], backoffs = []\<rparr>"

definition rte_xbegin :: "env \<Rightarrow> hw \<Rightarrow> u32 \<times> hw" where
  "rte_xbegin E s =
     (let ret = xbegin_at E (xbegins s)
      in (ret, s\<lparr>xbegins := Suc (xbegins s), trace := trace s @ [XBegin ret]\<rparr>))"

text \<open>
  \<open>rte_xabort(status)\<close> is the \<open>XABORT imm8\<close> instruction. Inside a transaction it
  never falls through: the hardware rolls the transaction back and resumes at the
  fallback address of the \<open>XBEGIN\<close>, which line 32 encodes as displacement 0, the
  instruction after the \<open>XBEGIN\<close> itself. There \<open>ret\<close> holds the abort status: the
  explicit bit and the immediate in bits 31..24. \<open>rte_xabort\<close> records the
  instruction; \<open>xabort_status\<close> is the status the resumed code sees. Whatever other
  flag the hardware may add to it, a status with the explicit bit and code 0xff
  takes the branch of line 88.
\<close>

definition rte_xabort :: "u32 \<Rightarrow> hw \<Rightarrow> hw" where
  "rte_xabort status s = s\<lparr>trace := trace s @ [XAbort status]\<rparr>"

definition xabort_status :: "u32 \<Rightarrow> u32" where
  "xabort_status imm = RTE_XABORT_EXPLICIT OR push_bit 24 (imm AND 0xff)"

definition read_lock_txn :: "env \<Rightarrow> addr \<Rightarrow> hw \<Rightarrow> u32 \<times> hw" where
  "read_lock_txn E lock s =
     (let v = txn_lock_at E (txn_reads s)
      in (v, s\<lparr>txn_reads := Suc (txn_reads s), trace := trace s @ [Load lock v]\<rparr>))"

definition read_lock_wait :: "env \<Rightarrow> addr \<Rightarrow> hw \<Rightarrow> u32 \<times> hw" where
  "read_lock_wait E lock s =
     (let v = wait_lock_at E (wait_reads s)
      in (v, s\<lparr>wait_reads := Suc (wait_reads s), trace := trace s @ [Load lock v]\<rparr>))"

definition ia32_pause :: "hw \<Rightarrow> hw" where
  "ia32_pause s = s\<lparr>pauses := Suc (pauses s)\<rparr>"

definition rte_rdtsc :: "env \<Rightarrow> hw \<Rightarrow> u64 \<times> hw" where
  "rte_rdtsc E s =
     (let tsc_64 = dpdk_rdtsc (fst (tsc_at E (tscs s))) (snd (tsc_at E (tscs s)))
      in (tsc_64, s\<lparr>tscs := Suc (tscs s), trace := trace s @ [Rdtsc tsc_64]\<rparr>))"

subsection \<open>\<open>rte_try_tm\<close>\<close>

text \<open>
  Line 84, \<open>while (*lock) __builtin_ia32_pause();\<close>. Nothing bounds this loop, so it
  is a partial function: \<open>None\<close> is the loop that never ends.
\<close>

partial_function (option) busy_wait :: "env \<Rightarrow> addr \<Rightarrow> hw \<Rightarrow> hw option" where
  "busy_wait E lock s =
     (if fst (read_lock_wait E lock s) \<noteq> 0
      then busy_wait E lock (ia32_pause (snd (read_lock_wait E lock s)))
      else Some (snd (read_lock_wait E lock s)))"

declare busy_wait.simps [code]

text \<open>Lines 94..96, \<open>for (int i = 0; i < pause_count; ++i) __builtin_ia32_pause();\<close>.\<close>

function pause_loop :: "u32 \<Rightarrow> u32 \<Rightarrow> hw \<Rightarrow> hw" where
  "pause_loop i pause_count s =
     (if i <s pause_count then pause_loop (i + 1) pause_count (ia32_pause s) else s)"
  by pat_completeness auto

lemma sint_succ:
  fixes i n :: u32
  assumes "i <s n"
  shows "sint (i + 1) = sint i + 1"
proof -
  have a: "sint i < sint n" using assms by (simp add: word_sless_alt)
  have b: "sint n < 2 ^ 31" using sint_lt [of n] by simp
  have c: "- (2 ^ 31) \<le> sint i" using sint_ge [of i] by simp
  have "sint (i + 1) = signed_take_bit 31 (sint i + 1)"
    by (simp add: sint_word_ariths)
  also have "\<dots> = sint i + 1"
    using a b c by (simp add: signed_take_bit_int_eq_self)
  finally show ?thesis .
qed

termination pause_loop
  by (relation "measure (\<lambda>(i, n, s). nat (sint n - sint i))")
     (auto simp: sint_succ word_sless_alt)

text \<open>Line 92, the expression \<open>(rte_rdtsc() & 0x7) | 1\<close>, computed in \<open>uint64_t\<close>.\<close>

definition jitter :: "u64 \<Rightarrow> u64" where
  "jitter tsc = (tsc AND 0x7) OR 1"

text \<open>Line 91, \<open>try_count = RTE_RTM_MAX_RETRIES - retries\<close>.\<close>

definition try_count_of :: "u32 \<Rightarrow> u32" where
  "try_count_of retries = RTE_RTM_MAX_RETRIES - retries"

text \<open>
  Lines 92 and 93: the 64-bit jitter initialises the \<open>int pause_count\<close> (a
  truncation), which \<open><<=\<close> then shifts by \<open>try_count\<close>. C leaves a shift by a negative
  count or by 32 and more undefined; \<open>push_bit\<close> by the unsigned reading of the count
  yields 0 there. The counts the loop produces are 1..20, where both agree.
\<close>

definition pause_count_of :: "u64 \<Rightarrow> u32 \<Rightarrow> u32" where
  "pause_count_of tsc try_count = push_bit (unat try_count) (ucast (jitter tsc))"

text \<open>
  Lines 91..96. \<open>retries\<close> is the counter as the loop head left it. The entry added to
  \<open>backoffs\<close> records what was computed; the \<open>for\<close> loop then pauses.
\<close>

definition backoff :: "env \<Rightarrow> u32 \<Rightarrow> hw \<Rightarrow> hw" where
  "backoff E retries s =
     (let try_count = try_count_of retries;
          tsc = fst (rte_rdtsc E s);
          s1 = snd (rte_rdtsc E s);
          pause_count = pause_count_of tsc try_count;
          s2 = s1\<lparr>backoffs := backoffs s1 @
                 [\<lparr>bo_retries = retries, bo_try_count = try_count, bo_tsc = tsc,
                   bo_pause_count = pause_count\<rparr>]\<rparr>
      in pause_loop 0 pause_count s2)"

text \<open>How one pass through the body of the \<open>while\<close> loop ends.\<close>

datatype outcome =
    Return1 hw  \<comment> \<open>\<open>return 1\<close>, line 81\<close>
  | Continue hw \<comment> \<open>\<open>continue\<close> (line 97), or the end of the body\<close>
  | Break hw    \<comment> \<open>\<open>break\<close>, line 101\<close>

text \<open>The condition of lines 88..90: a conflict, or an explicit abort with code 0xff.\<close>

definition transient :: "u32 \<Rightarrow> bool" where
  "transient status \<longleftrightarrow>
     (status AND RTE_XABORT_CONFLICT) \<noteq> 0 \<or>
     ((status AND RTE_XABORT_EXPLICIT) \<noteq> 0 \<and>
      RTE_XABORT_CODE status = RTE_XABORT_LOCK_BUSY)"

text \<open>Lines 84..102: the body from the busy-wait on, for a status that is not STARTED.\<close>

definition on_abort :: "env \<Rightarrow> addr \<Rightarrow> u32 \<Rightarrow> u32 \<Rightarrow> hw \<Rightarrow> outcome option" where
  "on_abort E lock retries status s =
     (case busy_wait E lock s of
        None \<Rightarrow> None
      | Some s1 \<Rightarrow>
          if transient status then Some (Continue (backoff E retries s1))
          else if (status AND RTE_XABORT_RETRY) = 0 then Some (Break s1)
          else Some (Continue s1))"

text \<open>
  Lines 76..102, one pass through the loop body; \<open>retries\<close> has been decremented by
  the loop head already. When the transaction has started and \<open>*lock\<close> is nonzero,
  \<open>XABORT 0xff\<close> runs: the \<open>return 1\<close> behind it is not reached, the code after the
  \<open>XBEGIN\<close> runs again with \<open>xabort_status 0xff\<close> in \<open>status\<close>, which is not STARTED
  (lemma \<open>xabort_status_not_started\<close>), and so continues at line 84. No further
  \<open>XBEGIN\<close> is executed for that.
\<close>

definition iteration :: "env \<Rightarrow> addr \<Rightarrow> u32 \<Rightarrow> hw \<Rightarrow> outcome option" where
  "iteration E lock retries s =
     (let status = fst (rte_xbegin E s); s1 = snd (rte_xbegin E s)
      in if RTE_XBEGIN_STARTED = status
         then (let v = fst (read_lock_txn E lock s1); s2 = snd (read_lock_txn E lock s1)
               in if v \<noteq> 0
                  then on_abort E lock retries (xabort_status RTE_XABORT_LOCK_BUSY)
                         (rte_xabort RTE_XABORT_LOCK_BUSY s2)
                  else Some (Return1 s2))
         else on_abort E lock retries status s1)"

text \<open>
  Lines 75..105. \<open>while (retries--)\<close> tests the counter against 0 and decrements it,
  whatever the test said. The result is the returned \<open>int\<close>, the counter at that
  moment and the machine.
\<close>

function try_loop :: "env \<Rightarrow> addr \<Rightarrow> u32 \<Rightarrow> hw \<Rightarrow> (u32 \<times> u32 \<times> hw) option" where
  "try_loop E lock retries s =
     (if retries = 0 then Some (0, retries - 1, s)
      else case iteration E lock (retries - 1) s of
             None \<Rightarrow> None
           | Some (Return1 s') \<Rightarrow> Some (1, retries - 1, s')
           | Some (Break s') \<Rightarrow> Some (0, retries - 1, s')
           | Some (Continue s') \<Rightarrow> try_loop E lock (retries - 1) s')"
  by pat_completeness auto

termination
  by (relation "measure (\<lambda>(E, lock, retries, s). unat retries)")
     (auto simp: measure_unat)

definition rte_try_tm :: "env \<Rightarrow> addr \<Rightarrow> (u32 \<times> u32 \<times> hw) option" where
  "rte_try_tm E lock = try_loop E lock RTE_RTM_MAX_RETRIES hw0"

text \<open>What a trace does to a memory: only a \<open>Store\<close> changes it.\<close>

fun apply_event :: "event \<Rightarrow> (addr \<Rightarrow> u32) \<Rightarrow> (addr \<Rightarrow> u32)" where
  "apply_event (Store a v) m = m(a := v)"
| "apply_event _ m = m"

text \<open>An event that writes nothing and touches no address but \<open>lock\<close>.\<close>

fun reads_only :: "addr \<Rightarrow> event \<Rightarrow> bool" where
  "reads_only lock (Load a v) = (a = lock)"
| "reads_only lock (Store a v) = False"
| "reads_only lock _ = True"

fun state_of :: "outcome \<Rightarrow> hw" where
  "state_of (Return1 s) = s"
| "state_of (Continue s) = s"
| "state_of (Break s) = s"

fun is_xabort :: "event \<Rightarrow> bool" where
  "is_xabort (XAbort c) = True"
| "is_xabort _ = False"

subsection \<open>Closed forms used in the proofs\<close>

text \<open>
  \<open>ends_at E s n\<close>: a busy-wait entered in \<open>s\<close> loads \<open>n\<close> nonzero values and then a
  zero. \<open>waited E lock n s\<close> is the machine it leaves behind.
\<close>

definition ends_at :: "env \<Rightarrow> hw \<Rightarrow> nat \<Rightarrow> bool" where
  "ends_at E s n \<longleftrightarrow>
     (\<forall>i<n. wait_lock_at E (wait_reads s + i) \<noteq> 0) \<and> wait_lock_at E (wait_reads s + n) = 0"

definition waited :: "env \<Rightarrow> addr \<Rightarrow> nat \<Rightarrow> hw \<Rightarrow> hw" where
  "waited E lock n s =
     s\<lparr>wait_reads := wait_reads s + n + 1, pauses := pauses s + n,
       trace := trace s @ map (\<lambda>i. Load lock (wait_lock_at E (wait_reads s + i))) [0..<Suc n]\<rparr>"

text \<open>What one back-off appends to \<open>backoffs\<close>.\<close>

definition backoff_entry :: "env \<Rightarrow> u32 \<Rightarrow> hw \<Rightarrow> backoff_rec" where
  "backoff_entry E retries s =
     \<lparr>bo_retries = retries, bo_try_count = try_count_of retries,
      bo_tsc = fst (rte_rdtsc E s),
      bo_pause_count = pause_count_of (fst (rte_rdtsc E s)) (try_count_of retries)\<rparr>"

text \<open>The machine after the \<open>XBEGIN\<close>, and after STARTED and the load of a zero flag.\<close>

definition begun :: "env \<Rightarrow> hw \<Rightarrow> hw" where
  "begun E s = snd (rte_xbegin E s)"

definition entered :: "env \<Rightarrow> addr \<Rightarrow> hw \<Rightarrow> hw" where
  "entered E lock s = snd (read_lock_txn E lock (snd (rte_xbegin E s)))"

text \<open>The machine after STARTED, a nonzero flag and the \<open>XABORT\<close>.\<close>

definition aborted :: "env \<Rightarrow> addr \<Rightarrow> hw \<Rightarrow> hw" where
  "aborted E lock s =
     rte_xabort RTE_XABORT_LOCK_BUSY (snd (read_lock_txn E lock (snd (rte_xbegin E s))))"

text \<open>What the loop guarantees of every entry of \<open>backoffs\<close>.\<close>

definition sound_backoff :: "backoff_rec \<Rightarrow> bool" where
  "sound_backoff b \<longleftrightarrow>
     unat (bo_retries b) < 20 \<and> bo_try_count b = try_count_of (bo_retries b) \<and>
     bo_pause_count b = pause_count_of (bo_tsc b) (bo_try_count b)"

text \<open>
  \<open>spun E lock k s\<close>: the machine after a busy-wait entered in \<open>s\<close> has loaded \<open>k\<close>
  nonzero values and paused after each.
\<close>

definition spun :: "env \<Rightarrow> addr \<Rightarrow> nat \<Rightarrow> hw \<Rightarrow> hw" where
  "spun E lock k s =
     s\<lparr>wait_reads := wait_reads s + k, pauses := pauses s + k,
       trace := trace s @ map (\<lambda>i. Load lock (wait_lock_at E (wait_reads s + i))) [0..<k]\<rparr>"

text \<open>
  The loop head (line 75) as a relation: \<open>loop_head E lock retries s\<close> holds when the
  run of \<open>rte_try_tm\<close> comes to the test \<open>retries--\<close> with \<open>retries\<close> in the counter and
  the machine in state \<open>s\<close>. It follows the recursion of \<open>try_loop\<close> and, unlike the
  result of \<open>try_loop\<close>, speaks of the runs that never return as well.
\<close>

inductive loop_head :: "env \<Rightarrow> addr \<Rightarrow> u32 \<Rightarrow> hw \<Rightarrow> bool" for E lock where
  first_pass: "loop_head E lock RTE_RTM_MAX_RETRIES hw0"
| next_pass: "loop_head E lock retries s \<Longrightarrow> retries \<noteq> 0 \<Longrightarrow>
     iteration E lock (retries - 1) s = Some (Continue s') \<Longrightarrow>
     loop_head E lock (retries - 1) s'"

subsection \<open>Scenarios\<close>

text \<open>Scenario A: every \<open>XBEGIN\<close> starts a transaction and the flag is 0 at every read.\<close>

definition scenario_A :: env where
  "scenario_A = \<lparr>xbegin_at = (\<lambda>_. RTE_XBEGIN_STARTED), txn_lock_at = (\<lambda>_. 0),
                  wait_lock_at = (\<lambda>_. 0), tsc_at = (\<lambda>_. (0, 0))\<rparr>"

text \<open>
  Scenario B as the specification words it: every \<open>XBEGIN\<close> starts a transaction and
  the flag is 1 whenever it is read. In \<open>scenario_B_released\<close> the flag is 1 at every
  read inside a transaction and 0 at every read of the busy-wait.
\<close>

definition scenario_B :: env where
  "scenario_B = \<lparr>xbegin_at = (\<lambda>_. RTE_XBEGIN_STARTED), txn_lock_at = (\<lambda>_. 1),
                  wait_lock_at = (\<lambda>_. 1), tsc_at = (\<lambda>_. (0, 0))\<rparr>"

definition scenario_B_released :: env where
  "scenario_B_released = \<lparr>xbegin_at = (\<lambda>_. RTE_XBEGIN_STARTED), txn_lock_at = (\<lambda>_. 1),
                  wait_lock_at = (\<lambda>_. 0), tsc_at = (\<lambda>_. (0, 0))\<rparr>"

text \<open>
  Scenario D: every \<open>XBEGIN\<close> fails with the capacity flag alone. In \<open>scenario_D_held\<close>
  the flag is 1 at every read, in \<open>scenario_D\<close> it is 0.
\<close>

definition scenario_D :: env where
  "scenario_D = \<lparr>xbegin_at = (\<lambda>_. RTE_XABORT_CAPACITY), txn_lock_at = (\<lambda>_. 0),
                  wait_lock_at = (\<lambda>_. 0), tsc_at = (\<lambda>_. (0, 0))\<rparr>"

definition scenario_D_held :: env where
  "scenario_D_held = \<lparr>xbegin_at = (\<lambda>_. RTE_XABORT_CAPACITY), txn_lock_at = (\<lambda>_. 1),
                  wait_lock_at = (\<lambda>_. 1), tsc_at = (\<lambda>_. (0, 0))\<rparr>"

text \<open>
  Scenario C: every \<open>XBEGIN\<close> fails with the conflict flag and the retry flag. In
  \<open>scenario_C_held\<close> the flag is 1 at every read, in \<open>scenario_C\<close> it is 0.
\<close>

definition scenario_C :: env where
  "scenario_C = \<lparr>xbegin_at = (\<lambda>_. RTE_XABORT_CONFLICT OR RTE_XABORT_RETRY),
                  txn_lock_at = (\<lambda>_. 0), wait_lock_at = (\<lambda>_. 0),
                  tsc_at = (\<lambda>_. (0x12345678, 0x9abcdef0))\<rparr>"

definition scenario_C_held :: env where
  "scenario_C_held = \<lparr>xbegin_at = (\<lambda>_. RTE_XABORT_CONFLICT OR RTE_XABORT_RETRY),
                  txn_lock_at = (\<lambda>_. 1), wait_lock_at = (\<lambda>_. 1),
                  tsc_at = (\<lambda>_. (0x12345678, 0x9abcdef0))\<rparr>"

text \<open>
  Two conflicts, then a transaction that starts with the flag free; the cycle
  counter always reads \<open>0x9abcdef01234567d\<close>.
\<close>

definition scenario_E :: env where
  "scenario_E = \<lparr>xbegin_at = (\<lambda>n. if n < 2 then RTE_XABORT_CONFLICT else RTE_XBEGIN_STARTED),
                  txn_lock_at = (\<lambda>_. 0), wait_lock_at = (\<lambda>_. 0),
                  tsc_at = (\<lambda>_. (0x1234567d, 0x9abcdef0))\<rparr>"

section \<open>The cycle counter combines its halves\<close>

lemma le_bytes_u32:
  "(ucast (ucast (w::u32) :: u8) :: u64) OR
     push_bit 8 (ucast (ucast (drop_bit 8 w) :: u8)) OR
     push_bit 16 (ucast (ucast (drop_bit 16 w) :: u8)) OR
     push_bit 24 (ucast (ucast (drop_bit 24 w) :: u8)) OR x
   = ucast w OR x"
  apply (rule bit_word_eqI)
  apply (simp add: bit_simps)
  apply (auto dest: bit_imp_le_length)
  done

lemma u64_of_bytes_u32:
  "u64_of_bytes (bytes_of_u32 w @ bs) = ucast w OR push_bit 32 (u64_of_bytes bs)"
  by (simp add: bytes_of_u32_def le_bytes_u32)

lemma dpdk_rdtsc_or: "dpdk_rdtsc lo hi = ucast lo OR push_bit 32 (ucast hi)"
proof -
  have "u64_of_bytes (bytes_of_u32 hi) = ucast hi"
    using u64_of_bytes_u32 [of hi "[]"] by simp
  then show ?thesis
    by (simp add: dpdk_rdtsc_def tsc_union_def u64_of_bytes_u32)
qed

lemma halves_disjoint: "(ucast (lo::u32) :: u64) AND push_bit 32 (ucast (hi::u32)) = 0"
  by (rule bit_word_eqI) (auto simp add: bit_simps dest: bit_imp_le_length)

lemma dpdk_rdtsc_add: "dpdk_rdtsc lo hi = ucast lo + push_bit 32 (ucast hi)"
  by (simp add: dpdk_rdtsc_or disjunctive_add_eq_or halves_disjoint)

lemma unat_ucast_u32_u64: "unat (ucast (lo::u32) :: u64) = unat lo"
proof -
  have "unat lo < 2 ^ 32" using unsigned_less [of lo] by simp
  then have "unat lo < 2 ^ 64" by simp
  then show ?thesis
    by (simp add: unsigned_ucast_eq take_bit_nat_eq_self)
qed

lemma unat_high_half: "unat (push_bit 32 (ucast (hi::u32)) :: u64) = unat hi * 2 ^ 32"
proof -
  have "unat hi < 2 ^ 32" using unsigned_less [of hi] by simp
  then have b: "unat hi * 2 ^ 32 < 2 ^ 64" by simp
  have "unat (push_bit 32 (ucast hi) :: u64) = (unat (ucast hi :: u64) * 2 ^ 32) mod 2 ^ 64"
    by (simp add: push_bit_eq_mult unat_word_ariths)
  then show ?thesis using b by (simp add: unat_ucast_u32_u64)
qed

lemma unat_add_u64: "unat (a + b) = (unat a + unat b) mod 2 ^ 64" for a b :: u64
  by (simp add: unat_word_ariths)

lemma unat_dpdk_rdtsc: "unat (dpdk_rdtsc lo hi) = unat hi * 2 ^ 32 + unat lo"
proof -
  have l: "unat lo < 2 ^ 32" using unsigned_less [of lo] by simp
  have h: "unat hi < 2 ^ 32" using unsigned_less [of hi] by simp
  have b: "unat lo + unat hi * 2 ^ 32 < 2 ^ 64" using l h by simp
  have "unat (dpdk_rdtsc lo hi) =
          (unat (ucast lo :: u64) + unat (push_bit 32 (ucast hi) :: u64)) mod 2 ^ 64"
    unfolding dpdk_rdtsc_add by (rule unat_add_u64)
  also have "\<dots> = (unat lo + unat hi * 2 ^ 32) mod 2 ^ 64"
    by (simp only: unat_ucast_u32_u64 unat_high_half)
  also have "\<dots> = unat lo + unat hi * 2 ^ 32"
    using b by (rule mod_less)
  finally show ?thesis by simp
qed

lemma low_half_dpdk_rdtsc: "ucast (dpdk_rdtsc lo hi) = lo"
  unfolding dpdk_rdtsc_or
  by (rule bit_word_eqI) (auto simp add: bit_simps dest: bit_imp_le_length)

lemma high_half_dpdk_rdtsc: "ucast (drop_bit 32 (dpdk_rdtsc lo hi)) = hi"
  unfolding dpdk_rdtsc_or
  by (rule bit_word_eqI) (auto simp add: bit_simps dest: bit_imp_le_length)

section \<open>The jitter\<close>

lemma and7_cases:
  fixes t :: u64
  shows "t AND 7 \<in> {0, 1, 2, 3, 4, 5, 6, 7}"
proof -
  define n where "n = unat (t AND 7)"
  have "t AND 7 \<le> 7" by (rule word_and_le1)
  then have "n \<le> 7" by (simp add: word_le_nat_alt n_def)
  then consider "n = 0" | "n = 1" | "n = 2" | "n = 3" | "n = 4" | "n = 5" | "n = 6" | "n = 7"
    by linarith
  moreover have e: "t AND 7 = of_nat n" by (simp add: n_def)
  ultimately show ?thesis
    by cases simp_all
qed

lemma jitter_cases: "jitter tsc \<in> {1, 3, 5, 7}"
proof -
  have "t \<in> {0, 1, 2, 3, 4, 5, 6, 7} \<Longrightarrow> t OR 1 \<in> {1, 3, 5, 7}" for t :: u64
    by (elim insertE emptyE) simp_all
  from this [OF and7_cases] show ?thesis by (simp only: jitter_def)
qed

section \<open>Facts about the primitives, the busy-wait and the pause loop\<close>

declare pause_loop.simps [simp del]

declare try_loop.simps [simp del]

lemma rte_xbegin_fst [simp]: "fst (rte_xbegin E s) = xbegin_at E (xbegins s)"
  by (simp add: rte_xbegin_def Let_def)

lemma rte_xbegin_snd [simp]:
  "snd (rte_xbegin E s) =
     s\<lparr>xbegins := Suc (xbegins s), trace := trace s @ [XBegin (xbegin_at E (xbegins s))]\<rparr>"
  by (simp add: rte_xbegin_def Let_def)

lemma read_lock_txn_fst [simp]: "fst (read_lock_txn E lock s) = txn_lock_at E (txn_reads s)"
  by (simp add: read_lock_txn_def Let_def)

lemma read_lock_txn_snd [simp]:
  "snd (read_lock_txn E lock s) =
     s\<lparr>txn_reads := Suc (txn_reads s),
       trace := trace s @ [Load lock (txn_lock_at E (txn_reads s))]\<rparr>"
  by (simp add: read_lock_txn_def Let_def)

lemma read_lock_wait_fst [simp]: "fst (read_lock_wait E lock s) = wait_lock_at E (wait_reads s)"
  by (simp add: read_lock_wait_def Let_def)

lemma read_lock_wait_snd [simp]:
  "snd (read_lock_wait E lock s) =
     s\<lparr>wait_reads := Suc (wait_reads s),
       trace := trace s @ [Load lock (wait_lock_at E (wait_reads s))]\<rparr>"
  by (simp add: read_lock_wait_def Let_def)

lemma rte_rdtsc_fst [simp]:
  "fst (rte_rdtsc E s) = dpdk_rdtsc (fst (tsc_at E (tscs s))) (snd (tsc_at E (tscs s)))"
  by (simp add: rte_rdtsc_def Let_def)

lemma rte_rdtsc_snd [simp]:
  "snd (rte_rdtsc E s) =
     s\<lparr>tscs := Suc (tscs s),
       trace := trace s @ [Rdtsc (dpdk_rdtsc (fst (tsc_at E (tscs s))) (snd (tsc_at E (tscs s))))]\<rparr>"
  by (simp add: rte_rdtsc_def Let_def)

lemma pause_loop_eq:
  "pause_loop i n s = s\<lparr>pauses := pauses s + nat (sint n - sint i)\<rparr>"
proof (induction i n s rule: pause_loop.induct)
  case (1 i n s)
  show ?case
  proof (cases "i <s n")
    case True
    then have lt: "sint i < sint n" by (simp add: word_sless_alt)
    have "pause_loop i n s = pause_loop (i + 1) n (ia32_pause s)"
      using True by (subst pause_loop.simps) simp
    also have "\<dots> = (ia32_pause s)\<lparr>pauses := pauses (ia32_pause s) + nat (sint n - sint (i + 1))\<rparr>"
      using "1.IH" [OF True] .
    also have "\<dots> = s\<lparr>pauses := pauses s + nat (sint n - sint i)\<rparr>"
      using lt by (simp add: ia32_pause_def sint_succ [OF True] nat_diff_distrib)
    finally show ?thesis .
  next
    case False
    then have "sint n \<le> sint i" by (simp add: word_sless_alt)
    then show ?thesis using False by (subst pause_loop.simps) simp
  qed
qed

lemma waited_Suc:
  "waited E lock n (ia32_pause (snd (read_lock_wait E lock s))) = waited E lock (Suc n) s"
  by (simp add: waited_def ia32_pause_def upt_rec [of 0] map_Suc_upt [symmetric] del: upt_Suc)

lemma busy_wait_ends:
  "ends_at E s n \<Longrightarrow> busy_wait E lock s = Some (waited E lock n s)"
proof (induction n arbitrary: s)
  case 0
  then show ?case
    by (subst busy_wait.simps) (simp add: waited_def ends_at_def)
next
  case (Suc n)
  let ?s = "ia32_pause (snd (read_lock_wait E lock s))"
  have r: "wait_reads ?s = Suc (wait_reads s)"
    by (simp add: ia32_pause_def)
  have nz: "wait_lock_at E (wait_reads s) \<noteq> 0" using Suc.prems by (force simp: ends_at_def)
  have a: "ends_at E ?s n"
    using Suc.prems r by (auto simp: ends_at_def)
  have "busy_wait E lock s = busy_wait E lock ?s"
    using nz by (subst busy_wait.simps) simp
  also have "\<dots> = Some (waited E lock n ?s)"
    by (rule Suc.IH [OF a])
  finally show ?case by (simp only: waited_Suc)
qed

lemma busy_wait_SomeD:
  assumes "busy_wait E lock s = Some s'"
  shows "\<exists>n. ends_at E s n \<and> s' = waited E lock n s"
  using assms
proof (induction rule: busy_wait.raw_induct [rotated, consumes 1])
  case (1 bw E lock s s')
  show ?case
  proof (cases "wait_lock_at E (wait_reads s) = 0")
    case True
    with 1(2) have "s' = waited E lock 0 s" by (simp add: waited_def)
    moreover have "ends_at E s 0" using True by (simp add: ends_at_def)
    ultimately show ?thesis by blast
  next
    case False
    let ?s = "ia32_pause (snd (read_lock_wait E lock s))"
    from False 1(2) have "bw E lock ?s = Some s'" by simp
    from 1(1) [OF this] obtain n where n: "ends_at E ?s n" "s' = waited E lock n ?s"
      by blast
    have r: "wait_reads ?s = Suc (wait_reads s)" by (simp add: ia32_pause_def)
    have "ends_at E s (Suc n)"
      unfolding ends_at_def
    proof (intro conjI allI impI)
      fix i assume "i < Suc n"
      show "wait_lock_at E (wait_reads s + i) \<noteq> 0"
      proof (cases i)
        case 0 then show ?thesis using False by simp
      next
        case (Suc j)
        with \<open>i < Suc n\<close> have "j < n" by simp
        with n(1) r Suc show ?thesis by (simp add: ends_at_def)
      qed
    next
      show "wait_lock_at E (wait_reads s + Suc n) = 0"
        using n(1) r by (simp add: ends_at_def)
    qed
    moreover have "s' = waited E lock (Suc n) s" using n(2) by (simp only: waited_Suc)
    ultimately show ?thesis by blast
  qed
qed

lemma busy_wait_diverges:
  assumes "\<forall>i. wait_lock_at E (wait_reads s + i) \<noteq> 0"
  shows "busy_wait E lock s = None"
proof (cases "busy_wait E lock s")
  case None
  then show ?thesis .
next
  case (Some s')
  from busy_wait_SomeD [OF this] assms show ?thesis by (auto simp: ends_at_def)
qed

lemma ends_at_ex:
  assumes "wait_lock_at E (wait_reads s + j) = 0"
  shows "\<exists>n. ends_at E s n"
proof -
  let ?P = "\<lambda>j. wait_lock_at E (wait_reads s + j) = 0"
  have "?P (LEAST j. ?P j)" using assms by (rule LeastI)
  moreover have "\<forall>i<(LEAST j. ?P j). \<not> ?P i" using not_less_Least by blast
  ultimately show ?thesis unfolding ends_at_def by blast
qed

lemma xabort_status_not_started: "xabort_status imm \<noteq> RTE_XBEGIN_STARTED"
proof
  assume "xabort_status imm = RTE_XBEGIN_STARTED"
  then have "bit (xabort_status imm) 1 = bit (NOT 0 :: u32) 1"
    by (simp add: RTE_XBEGIN_STARTED_def)
  then show False
    by (simp add: xabort_status_def RTE_XABORT_EXPLICIT_def bit_simps)
qed

lemma lock_busy_retryable:
  "(xabort_status RTE_XABORT_LOCK_BUSY AND RTE_XABORT_EXPLICIT) \<noteq> 0 \<and>
   RTE_XABORT_CODE (xabort_status RTE_XABORT_LOCK_BUSY) = RTE_XABORT_LOCK_BUSY"
  by (simp add: xabort_status_def RTE_XABORT_EXPLICIT_def RTE_XABORT_CODE_def
      RTE_XABORT_LOCK_BUSY_def)

section \<open>One pass through the loop body, by cases\<close>

lemma backoff_eq:
  "backoff E r s =
     s\<lparr>tscs := Suc (tscs s), pauses := pauses s + nat (sint (bo_pause_count (backoff_entry E r s))),
       trace := trace s @ [Rdtsc (fst (rte_rdtsc E s))],
       backoffs := backoffs s @ [backoff_entry E r s]\<rparr>"
  by (simp add: backoff_def Let_def pause_loop_eq backoff_entry_def)

lemma started_has_conflict_bit: "(RTE_XBEGIN_STARTED AND RTE_XABORT_CONFLICT) \<noteq> 0"
  by (simp add: RTE_XBEGIN_STARTED_def RTE_XABORT_CONFLICT_def)

lemma on_abort_ends:
  assumes "ends_at E s n"
  shows "on_abort E lock r st s =
           (if transient st then Some (Continue (backoff E r (waited E lock n s)))
            else if (st AND RTE_XABORT_RETRY) = 0 then Some (Break (waited E lock n s))
            else Some (Continue (waited E lock n s)))"
  by (simp add: on_abort_def busy_wait_ends [OF assms])

lemma on_abort_SomeD:
  assumes "on_abort E lock r st s = Some oc"
  shows "\<exists>n. ends_at E s n \<and>
           oc = (if transient st then Continue (backoff E r (waited E lock n s))
                 else if (st AND RTE_XABORT_RETRY) = 0 then Break (waited E lock n s)
                 else Continue (waited E lock n s))"
proof -
  from assms obtain s1 where s1: "busy_wait E lock s = Some s1"
    by (auto simp: on_abort_def split: option.splits)
  from busy_wait_SomeD [OF s1] obtain n where n: "ends_at E s n" "s1 = waited E lock n s"
    by blast
  from assms show ?thesis
    unfolding on_abort_ends [OF n(1)] using n(1) by (auto split: if_splits)
qed

lemma iteration_entered:
  assumes "xbegin_at E (xbegins s) = RTE_XBEGIN_STARTED" "txn_lock_at E (txn_reads s) = 0"
  shows "iteration E lock r s = Some (Return1 (entered E lock s))"
  using assms by (simp add: iteration_def Let_def entered_def)

lemma iteration_lock_busy:
  assumes "xbegin_at E (xbegins s) = RTE_XBEGIN_STARTED" "txn_lock_at E (txn_reads s) \<noteq> 0"
  shows "iteration E lock r s =
           on_abort E lock r (xabort_status RTE_XABORT_LOCK_BUSY) (aborted E lock s)"
  using assms by (simp add: iteration_def Let_def aborted_def)

lemma iteration_failed:
  assumes "xbegin_at E (xbegins s) \<noteq> RTE_XBEGIN_STARTED"
  shows "iteration E lock r s = on_abort E lock r (xbegin_at E (xbegins s)) (begun E s)"
  using assms by (auto simp add: iteration_def Let_def begun_def)

lemma transient_lock_busy: "transient (xabort_status RTE_XABORT_LOCK_BUSY)"
  using lock_busy_retryable by (simp add: transient_def)

lemma wait_reads_aborted [simp]: "wait_reads (aborted E lock s) = wait_reads s"
  by (simp add: aborted_def rte_xabort_def)

lemma wait_reads_begun [simp]: "wait_reads (begun E s) = wait_reads s"
  by (simp add: begun_def)

lemma iteration_cases [consumes 1, case_names entered lock_busy transient give_up retry_now]:
  assumes "iteration E lock r s = Some oc"
  obtains
    "xbegin_at E (xbegins s) = RTE_XBEGIN_STARTED" "txn_lock_at E (txn_reads s) = 0"
      "oc = Return1 (entered E lock s)"
  | n where "xbegin_at E (xbegins s) = RTE_XBEGIN_STARTED" "txn_lock_at E (txn_reads s) \<noteq> 0"
      "ends_at E s n" "oc = Continue (backoff E r (waited E lock n (aborted E lock s)))"
  | n where "xbegin_at E (xbegins s) \<noteq> RTE_XBEGIN_STARTED" "transient (xbegin_at E (xbegins s))"
      "ends_at E s n" "oc = Continue (backoff E r (waited E lock n (begun E s)))"
  | n where "xbegin_at E (xbegins s) \<noteq> RTE_XBEGIN_STARTED" "\<not> transient (xbegin_at E (xbegins s))"
      "(xbegin_at E (xbegins s) AND RTE_XABORT_RETRY) = 0"
      "ends_at E s n" "oc = Break (waited E lock n (begun E s))"
  | n where "xbegin_at E (xbegins s) \<noteq> RTE_XBEGIN_STARTED" "\<not> transient (xbegin_at E (xbegins s))"
      "(xbegin_at E (xbegins s) AND RTE_XABORT_RETRY) \<noteq> 0"
      "ends_at E s n" "oc = Continue (waited E lock n (begun E s))"
proof (cases "xbegin_at E (xbegins s) = RTE_XBEGIN_STARTED")
  case True
  show ?thesis
  proof (cases "txn_lock_at E (txn_reads s) = 0")
    case z: True
    from assms iteration_entered [OF True z] that(1) [OF True z] show ?thesis by simp
  next
    case nz: False
    from assms have "on_abort E lock r (xabort_status RTE_XABORT_LOCK_BUSY) (aborted E lock s) = Some oc"
      by (simp add: iteration_lock_busy [OF True nz])
    from on_abort_SomeD [OF this] obtain n where
      "ends_at E (aborted E lock s) n"
      "oc = Continue (backoff E r (waited E lock n (aborted E lock s)))"
      by (auto simp: transient_lock_busy)
    moreover from this(1) have "ends_at E s n" by (simp add: ends_at_def)
    ultimately show ?thesis using that(2) [OF True nz] by blast
  qed
next
  case False
  from assms have "on_abort E lock r (xbegin_at E (xbegins s)) (begun E s) = Some oc"
    by (simp add: iteration_failed [OF False])
  from on_abort_SomeD [OF this] obtain n where n:
    "ends_at E (begun E s) n"
    "oc = (if transient (xbegin_at E (xbegins s))
           then Continue (backoff E r (waited E lock n (begun E s)))
           else if (xbegin_at E (xbegins s) AND RTE_XABORT_RETRY) = 0
                then Break (waited E lock n (begun E s))
                else Continue (waited E lock n (begun E s)))"
    by blast
  from n(1) have e: "ends_at E s n" by (simp add: ends_at_def)
  show ?thesis
  proof (cases "transient (xbegin_at E (xbegins s))")
    case True
    with n(2) that(3) [OF False True e] show ?thesis by simp
  next
    case nt: False
    show ?thesis
    proof (cases "(xbegin_at E (xbegins s) AND RTE_XABORT_RETRY) = 0")
      case True
      with n(2) nt that(4) [OF False nt True e] show ?thesis by simp
    next
      case nr: False
      with n(2) nt that(5) [OF False nt nr e] show ?thesis by simp
    qed
  qed
qed

section \<open>The loop as a whole\<close>

lemma sint_small_of_nat:
  assumes "k < 2 ^ 31"
  shows "sint (of_nat k :: u32) = int k"
proof -
  have "sint (of_nat k :: u32) = signed_take_bit 31 (int k)"
    by (simp add: signed_of_nat)
  also have "\<dots> = int k"
    using assms by (simp add: signed_take_bit_int_eq_self)
  finally show ?thesis .
qed

lemma sint_retries_left:
  assumes "n \<le> 20"
  shows "sint (RTE_RTM_MAX_RETRIES - of_nat n) = 20 - int n"
proof -
  have "RTE_RTM_MAX_RETRIES - of_nat n = (of_nat (20 - n) :: u32)"
    using assms by (simp add: RTE_RTM_MAX_RETRIES_def)
  moreover have "sint (of_nat (20 - n) :: u32) = int (20 - n)"
    by (rule sint_small_of_nat) (use assms in simp)
  ultimately show ?thesis using assms by simp
qed

lemma field_simps_waited [simp]:
  "xbegins (waited E lock n s) = xbegins s"
  "txn_reads (waited E lock n s) = txn_reads s"
  "tscs (waited E lock n s) = tscs s"
  "backoffs (waited E lock n s) = backoffs s"
  "wait_reads (waited E lock n s) = wait_reads s + n + 1"
  "pauses (waited E lock n s) = pauses s + n"
  "trace (waited E lock n s) =
     trace s @ map (\<lambda>i. Load lock (wait_lock_at E (wait_reads s + i))) [0..<Suc n]"
  by (simp_all add: waited_def)

lemma field_simps_aborted [simp]:
  "xbegins (aborted E lock s) = Suc (xbegins s)"
  "txn_reads (aborted E lock s) = Suc (txn_reads s)"
  "tscs (aborted E lock s) = tscs s"
  "backoffs (aborted E lock s) = backoffs s"
  "pauses (aborted E lock s) = pauses s"
  "trace (aborted E lock s) =
     trace s @ [XBegin (xbegin_at E (xbegins s)), Load lock (txn_lock_at E (txn_reads s)),
                XAbort RTE_XABORT_LOCK_BUSY]"
  by (simp_all add: aborted_def rte_xabort_def)

lemma field_simps_begun [simp]:
  "xbegins (begun E s) = Suc (xbegins s)"
  "txn_reads (begun E s) = txn_reads s"
  "tscs (begun E s) = tscs s"
  "backoffs (begun E s) = backoffs s"
  "pauses (begun E s) = pauses s"
  "trace (begun E s) = trace s @ [XBegin (xbegin_at E (xbegins s))]"
  by (simp_all add: begun_def)

lemma field_simps_entered [simp]:
  "xbegins (entered E lock s) = Suc (xbegins s)"
  "txn_reads (entered E lock s) = Suc (txn_reads s)"
  "wait_reads (entered E lock s) = wait_reads s"
  "tscs (entered E lock s) = tscs s"
  "backoffs (entered E lock s) = backoffs s"
  "pauses (entered E lock s) = pauses s"
  "trace (entered E lock s) =
     trace s @ [XBegin (xbegin_at E (xbegins s)), Load lock (txn_lock_at E (txn_reads s))]"
  by (simp_all add: entered_def)

lemma field_simps_backoff [simp]:
  "xbegins (backoff E r s) = xbegins s"
  "txn_reads (backoff E r s) = txn_reads s"
  "wait_reads (backoff E r s) = wait_reads s"
  "tscs (backoff E r s) = Suc (tscs s)"
  "backoffs (backoff E r s) = backoffs s @ [backoff_entry E r s]"
  "pauses (backoff E r s) = pauses s + nat (sint (bo_pause_count (backoff_entry E r s)))"
  "trace (backoff E r s) = trace s @ [Rdtsc (fst (rte_rdtsc E s))]"
  by (simp_all add: backoff_eq)

lemma iteration_xbegins:
  assumes "iteration E lock r s = Some oc"
  shows "xbegins (state_of oc) = Suc (xbegins s)"
  using assms by (cases rule: iteration_cases) simp_all

lemma try_loop_step:
  assumes "r \<noteq> 0"
  shows "try_loop E lock r s =
           (case iteration E lock (r - 1) s of
              None \<Rightarrow> None
            | Some (Return1 s') \<Rightarrow> Some (1, r - 1, s')
            | Some (Break s') \<Rightarrow> Some (0, r - 1, s')
            | Some (Continue s') \<Rightarrow> try_loop E lock (r - 1) s')"
  using assms by (subst try_loop.simps) simp

lemma try_loop_exhausted: "try_loop E lock 0 s = Some (0, - 1, s)"
  by (subst try_loop.simps) simp

lemma no_xabort_in_loads [simp]: "filter is_xabort (map (\<lambda>i. Load lock (f i)) xs) = []"
  by (induction xs) simp_all

lemma try_loop_all_lock_busy:
  assumes "\<forall>n. xbegin_at E n = RTE_XBEGIN_STARTED" and "\<forall>n. txn_lock_at E n \<noteq> 0"
    and "\<forall>k. \<exists>j. wait_lock_at E (k + j) = 0"
  shows "\<exists>s'. try_loop E lock r s = Some (0, - 1, s') \<and>
           xbegins s' = xbegins s + unat r \<and> txn_reads s' = txn_reads s + unat r \<and>
           filter is_xabort (trace s') =
             filter is_xabort (trace s) @ replicate (unat r) (XAbort RTE_XABORT_LOCK_BUSY) \<and>
           map bo_retries (backoffs s') =
             map bo_retries (backoffs s) @ map of_nat (rev [0..<unat r])"
  using assms
proof (induction E lock r s rule: try_loop.induct)
  case (1 E lock r s)
  show ?case
  proof (cases "r = 0")
    case True
    then show ?thesis by (simp add: try_loop_exhausted)
  next
    case False
    then have pos: "1 \<le> unat r" by (simp add: unat_gt_0 Suc_le_eq)
    have dec: "unat (r - 1) = unat r - 1" using False by (simp add: unat_minus_one)
    from "1.prems"(3) obtain j where "wait_lock_at E (wait_reads s + j) = 0" by blast
    from ends_at_ex [OF this] obtain n where "ends_at E s n" by blast
    then have a: "ends_at E (aborted E lock s) n" by (simp add: ends_at_def)
    define s1 where "s1 = backoff E (r - 1) (waited E lock n (aborted E lock s))"
    have it: "iteration E lock (r - 1) s = Some (Continue s1)"
      using "1.prems"(1,2)
      by (simp add: iteration_lock_busy on_abort_ends [OF a] transient_lock_busy s1_def)
    from "1.IH" [OF False it refl "1.prems"] obtain s' where
      ih: "try_loop E lock (r - 1) s1 = Some (0, - 1, s')"
          "xbegins s' = xbegins s1 + unat (r - 1)" "txn_reads s' = txn_reads s1 + unat (r - 1)"
          "filter is_xabort (trace s') =
             filter is_xabort (trace s1) @ replicate (unat (r - 1)) (XAbort RTE_XABORT_LOCK_BUSY)"
          "map bo_retries (backoffs s') =
             map bo_retries (backoffs s1) @ map of_nat (rev [0..<unat (r - 1)])"
      by blast
    have run: "try_loop E lock r s = Some (0, - 1, s')"
      using it ih(1) by (simp add: try_loop_step [OF False])
    have x: "xbegins s' = xbegins s + unat r" "txn_reads s' = txn_reads s + unat r"
      using ih(2,3) dec pos by (simp_all add: s1_def)
    have u: "unat r = Suc (unat (r - 1))" using dec pos by simp
    have t: "filter is_xabort (trace s') =
               filter is_xabort (trace s) @ replicate (unat r) (XAbort RTE_XABORT_LOCK_BUSY)"
      unfolding ih(4) u by (simp add: s1_def replicate_append_same)
    have "r - 1 = of_nat (unat (r - 1))" by simp
    then have b: "map bo_retries (backoffs s') =
               map bo_retries (backoffs s) @ map of_nat (rev [0..<unat r])"
      unfolding ih(5) u by (simp add: s1_def backoff_entry_def)
    from run x t b show ?thesis by blast
  qed
qed

lemma conflict_clear_not_started:
  assumes "(st AND RTE_XABORT_CONFLICT) = 0"
  shows "st \<noteq> RTE_XBEGIN_STARTED"
  using assms started_has_conflict_bit by auto

section \<open>The back-off\<close>

lemma backoff_entry_fields [simp]:
  "bo_retries (backoff_entry E r s) = r"
  "bo_try_count (backoff_entry E r s) = try_count_of r"
  "bo_tsc (backoff_entry E r s) = fst (rte_rdtsc E s)"
  "bo_pause_count (backoff_entry E r s) = pause_count_of (fst (rte_rdtsc E s)) (try_count_of r)"
  by (simp_all add: backoff_entry_def)

lemma iteration_backoffs:
  assumes "iteration E lock r s = Some oc"
  shows "backoffs (state_of oc) = backoffs s \<or>
         (\<exists>s0. backoffs (state_of oc) = backoffs s @ [backoff_entry E r s0])"
  using assms by (cases rule: iteration_cases) auto

lemma try_loop_backoffs:
  assumes "try_loop E lock r s = Some (ret, r', s')" and "unat r \<le> 20"
  shows "\<exists>bs. backoffs s' = backoffs s @ bs \<and>
           (\<forall>b\<in>set bs. sound_backoff b \<and> unat (bo_retries b) < unat r)"
  using assms
proof (induction E lock r s rule: try_loop.induct)
  case (1 E lock r s)
  show ?case
  proof (cases "r = 0")
    case True
    with "1.prems"(1) show ?thesis by (simp add: try_loop_exhausted)
  next
    case False
    then have pos: "1 \<le> unat r" by (simp add: unat_gt_0 Suc_le_eq)
    have dec: "unat (r - 1) = unat r - 1" using False by (simp add: unat_minus_one)
    from "1.prems"(1) obtain oc where oc: "iteration E lock (r - 1) s = Some oc"
      by (auto simp: try_loop_step [OF False] split: option.splits)
    have entry: "sound_backoff (backoff_entry E (r - 1) s0) \<and>
                 unat (bo_retries (backoff_entry E (r - 1) s0)) < unat r" for s0
      using dec pos "1.prems"(2) by (simp add: sound_backoff_def)
    from iteration_backoffs [OF oc] entry
    have step: "\<exists>bs. backoffs (state_of oc) = backoffs s @ bs \<and>
             (\<forall>b\<in>set bs. sound_backoff b \<and> unat (bo_retries b) < unat r)"
      by (metis append_Nil2 empty_iff empty_set set_ConsD)
    show ?thesis
    proof (cases oc)
      case (Return1 s1)
      with oc "1.prems"(1) have "s' = s1" by (simp add: try_loop_step [OF False])
      with step Return1 show ?thesis by simp
    next
      case (Break s1)
      with oc "1.prems"(1) have "s' = s1" by (simp add: try_loop_step [OF False])
      with step Break show ?thesis by simp
    next
      case (Continue s1)
      with oc "1.prems"(1) have run: "try_loop E lock (r - 1) s1 = Some (ret, r', s')"
        by (simp add: try_loop_step [OF False])
      have le: "unat (r - 1) \<le> 20" using dec "1.prems"(2) by simp
      from "1.IH" [OF False oc Continue run le] obtain bs' where
        bs': "backoffs s' = backoffs s1 @ bs'"
             "\<forall>b\<in>set bs'. sound_backoff b \<and> unat (bo_retries b) < unat (r - 1)"
        by blast
      from step Continue obtain bs where
        bs: "backoffs s1 = backoffs s @ bs"
            "\<forall>b\<in>set bs. sound_backoff b \<and> unat (bo_retries b) < unat r"
        by auto
      have "backoffs s' = backoffs s @ (bs @ bs')" using bs(1) bs'(1) by simp
      moreover have "\<forall>b\<in>set (bs @ bs'). sound_backoff b \<and> unat (bo_retries b) < unat r"
        using bs(2) bs'(2) dec by auto
      ultimately show ?thesis by blast
    qed
  qed
qed

lemma unat_jitter_le: "unat (jitter tsc) \<le> 7"
proof -
  have "t \<in> {1, 3, 5, 7} \<Longrightarrow> unat t \<le> 7" for t :: u64
    by (elim insertE emptyE) simp_all
  from this [OF jitter_cases] show ?thesis .
qed

lemma uint_jitter_pos: "0 < uint (jitter tsc)"
proof -
  have "t \<in> {1, 3, 5, 7} \<Longrightarrow> 0 < uint t" for t :: u64
    by (elim insertE emptyE) simp_all
  from this [OF jitter_cases] show ?thesis .
qed

lemma shifted_small:
  assumes "m \<le> 7" and "t \<le> 20"
  shows "m * 2 ^ t < (2::nat) ^ 31"
proof -
  have p: "(2::nat) ^ t \<le> 2 ^ 20"
    using assms(2) by (rule power_increasing) simp
  have "m * 2 ^ t \<le> 7 * 2 ^ t" using assms(1) by simp
  also have "\<dots> \<le> 7 * (2::nat) ^ 20"
    using p by (rule mult_le_mono2)
  also have "\<dots> < 2 ^ 31" by simp
  finally show ?thesis .
qed

lemma sint_pause_count_of:
  assumes "t \<le> 20"
  shows "sint (pause_count_of tsc (of_nat t)) = uint (jitter tsc) * 2 ^ t"
proof -
  define m where "m = unat (jitter tsc)"
  have m: "m \<le> 7" using unat_jitter_le by (simp add: m_def)
  have u: "unat (of_nat t :: u32) = t"
    using assms by (simp add: unat_of_nat)
  have "(ucast (jitter tsc) :: u32) = of_nat m"
    by (simp add: m_def)
  then have "pause_count_of tsc (of_nat t) = (of_nat (m * 2 ^ t) :: u32)"
    by (simp add: pause_count_of_def u push_bit_eq_mult)
  moreover have "sint (of_nat (m * 2 ^ t) :: u32) = int (m * 2 ^ t)"
    by (rule sint_small_of_nat) (rule shifted_small [OF m assms])
  ultimately show ?thesis by (simp add: m_def)
qed

lemma sound_backoff_values:
  assumes "sound_backoff b"
  shows "0 \<le> sint (bo_retries b) \<and> sint (bo_retries b) \<le> 19 \<and>
         sint (bo_try_count b) = 20 - sint (bo_retries b) \<and>
         sint (bo_pause_count b) =
           uint (jitter (bo_tsc b)) * 2 ^ nat (sint (bo_try_count b))"
proof -
  define k where "k = unat (bo_retries b)"
  have k: "k < 20" and tc: "bo_try_count b = try_count_of (bo_retries b)"
    and pc: "bo_pause_count b = pause_count_of (bo_tsc b) (bo_try_count b)"
    using assms by (simp_all add: sound_backoff_def k_def)
  have r: "bo_retries b = of_nat k" by (simp add: k_def)
  have sr: "sint (bo_retries b) = int k"
    unfolding r by (rule sint_small_of_nat) (use k in simp)
  have tc': "bo_try_count b = of_nat (20 - k)"
    using k by (simp add: tc try_count_of_def r RTE_RTM_MAX_RETRIES_def)
  have st: "sint (bo_try_count b) = int (20 - k)"
    unfolding tc' by (rule sint_small_of_nat) simp
  have sp: "sint (bo_pause_count b) = uint (jitter (bo_tsc b)) * 2 ^ (20 - k)"
    unfolding pc tc' by (rule sint_pause_count_of) simp
  have n: "nat (sint (bo_try_count b)) = 20 - k" using st by simp
  have "sint (bo_try_count b) = 20 - sint (bo_retries b)" using sr st k by simp
  with sr sp k show ?thesis unfolding n by simp
qed

lemma pause_count_strict_mono:
  assumes "t1 < t2" and "t2 \<le> 20" and "jitter tsc1 = jitter tsc2"
  shows "sint (pause_count_of tsc1 (of_nat t1)) < sint (pause_count_of tsc2 (of_nat t2))"
proof -
  define j where "j = uint (jitter tsc2)"
  have j: "0 < j" using uint_jitter_pos [of tsc2] by (simp add: j_def)
  have "(2::int) ^ t1 < 2 ^ t2" using assms(1) by simp
  then have "j * 2 ^ t1 < j * 2 ^ t2"
    using j by (rule mult_strict_left_mono)
  moreover have "sint (pause_count_of tsc1 (of_nat t1)) = j * 2 ^ t1"
    using assms by (simp add: sint_pause_count_of j_def)
  moreover have "sint (pause_count_of tsc2 (of_nat t2)) = j * 2 ^ t2"
    using assms by (simp add: sint_pause_count_of j_def)
  ultimately show ?thesis by simp
qed

lemma run_scenario_E:
  "rte_try_tm scenario_E 0 =
     Some (1, 17,
       \<lparr>xbegins = 3, txn_reads = 1, wait_reads = 2, tscs = 2, pauses = 30,
        trace = [XBegin 4, Load 0 0, Rdtsc 0x9abcdef01234567d,
                 XBegin 4, Load 0 0, Rdtsc 0x9abcdef01234567d,
                 XBegin 0xffffffff, Load 0 0],
        backoffs = [\<lparr>bo_retries = 19, bo_try_count = 1, bo_tsc = 0x9abcdef01234567d,
                      bo_pause_count = 10\<rparr>,
                    \<lparr>bo_retries = 18, bo_try_count = 2, bo_tsc = 0x9abcdef01234567d,
                      bo_pause_count = 20\<rparr>]\<rparr>)"
  by (simp add: rte_try_tm_def RTE_RTM_MAX_RETRIES_def try_loop.simps iteration_def on_abort_def
      busy_wait.simps backoff_def pause_loop_eq Let_def scenario_E_def hw0_def
      RTE_XABORT_CONFLICT_def RTE_XBEGIN_STARTED_def transient_def try_count_of_def
      pause_count_of_def jitter_def dpdk_rdtsc_or)

lemma rte_try_tm_backoffs_sound:
  assumes "rte_try_tm E lock = Some (ret, r', s')"
  shows "\<forall>b\<in>set (backoffs s'). sound_backoff b"
  using try_loop_backoffs [of E lock RTE_RTM_MAX_RETRIES hw0 ret r' s'] assms
  by (auto simp: rte_try_tm_def RTE_RTM_MAX_RETRIES_def hw0_def)

section \<open>The flag is only read\<close>

lemma reads_only_loads [simp]: "\<forall>e\<in>set (map (\<lambda>i. Load lock (f i)) xs). reads_only lock e"
  by (induction xs) simp_all

lemma iteration_trace:
  assumes "iteration E lock r s = Some oc"
  shows "\<exists>tr. trace (state_of oc) = trace s @ tr \<and> (\<forall>e\<in>set tr. reads_only lock e)"
  using assms
proof (cases rule: iteration_cases)
  case entered
  then show ?thesis by simp
next
  case (lock_busy n)
  let ?tr = "[XBegin (xbegin_at E (xbegins s)), Load lock (txn_lock_at E (txn_reads s)),
              XAbort RTE_XABORT_LOCK_BUSY] @
             map (\<lambda>i. Load lock (wait_lock_at E (wait_reads (aborted E lock s) + i))) [0..<Suc n] @
             [Rdtsc (fst (rte_rdtsc E (waited E lock n (aborted E lock s))))]"
  have "trace (state_of oc) = trace s @ ?tr" using lock_busy(4) by simp
  moreover have "\<forall>e\<in>set ?tr. reads_only lock e" by (auto simp del: upt_Suc)
  ultimately show ?thesis by blast
next
  case (transient n)
  let ?tr = "[XBegin (xbegin_at E (xbegins s))] @
             map (\<lambda>i. Load lock (wait_lock_at E (wait_reads (begun E s) + i))) [0..<Suc n] @
             [Rdtsc (fst (rte_rdtsc E (waited E lock n (begun E s))))]"
  have "trace (state_of oc) = trace s @ ?tr" using transient(4) by simp
  moreover have "\<forall>e\<in>set ?tr. reads_only lock e" by (auto simp del: upt_Suc)
  ultimately show ?thesis by blast
next
  case (give_up n)
  let ?tr = "[XBegin (xbegin_at E (xbegins s))] @
             map (\<lambda>i. Load lock (wait_lock_at E (wait_reads (begun E s) + i))) [0..<Suc n]"
  have "trace (state_of oc) = trace s @ ?tr" using give_up(5) by simp
  moreover have "\<forall>e\<in>set ?tr. reads_only lock e" by (auto simp del: upt_Suc)
  ultimately show ?thesis by blast
next
  case (retry_now n)
  let ?tr = "[XBegin (xbegin_at E (xbegins s))] @
             map (\<lambda>i. Load lock (wait_lock_at E (wait_reads (begun E s) + i))) [0..<Suc n]"
  have "trace (state_of oc) = trace s @ ?tr" using retry_now(5) by simp
  moreover have "\<forall>e\<in>set ?tr. reads_only lock e" by (auto simp del: upt_Suc)
  ultimately show ?thesis by blast
qed

lemma try_loop_trace:
  assumes "try_loop E lock r s = Some (ret, r', s')"
  shows "\<exists>tr. trace s' = trace s @ tr \<and> (\<forall>e\<in>set tr. reads_only lock e)"
  using assms
proof (induction E lock r s rule: try_loop.induct)
  case (1 E lock r s)
  show ?case
  proof (cases "r = 0")
    case True
    with "1.prems" show ?thesis by (simp add: try_loop_exhausted)
  next
    case False
    from "1.prems" obtain oc where oc: "iteration E lock (r - 1) s = Some oc"
      by (auto simp: try_loop_step [OF False] split: option.splits)
    note step = iteration_trace [OF oc]
    show ?thesis
    proof (cases oc)
      case (Return1 s1)
      with oc "1.prems" have "s' = s1" by (simp add: try_loop_step [OF False])
      with step Return1 show ?thesis by simp
    next
      case (Break s1)
      with oc "1.prems" have "s' = s1" by (simp add: try_loop_step [OF False])
      with step Break show ?thesis by simp
    next
      case (Continue s1)
      with oc "1.prems" have run: "try_loop E lock (r - 1) s1 = Some (ret, r', s')"
        by (simp add: try_loop_step [OF False])
      from "1.IH" [OF False oc Continue run] obtain tr' where
        tr': "trace s' = trace s1 @ tr'" "\<forall>e\<in>set tr'. reads_only lock e"
        by blast
      from step Continue obtain tr where
        tr: "trace s1 = trace s @ tr" "\<forall>e\<in>set tr. reads_only lock e"
        by auto
      have "trace s' = trace s @ (tr @ tr')" using tr(1) tr'(1) by simp
      moreover have "\<forall>e\<in>set (tr @ tr'). reads_only lock e" using tr(2) tr'(2) by auto
      ultimately show ?thesis by blast
    qed
  qed
qed

lemma fold_apply_reads_only:
  assumes "\<forall>e\<in>set tr. reads_only lock e"
  shows "fold apply_event tr m = m"
  using assms
proof (induction tr arbitrary: m)
  case Nil
  then show ?case by simp
next
  case (Cons e tr)
  from Cons.prems have "reads_only lock e" by simp
  then have "apply_event e m = m" by (cases e) simp_all
  with Cons show ?case by simp
qed

lemma spun_0 [simp]: "spun E lock 0 s = s"
  by (simp add: spun_def)

lemma spun_Suc:
  "spun E lock k (ia32_pause (snd (read_lock_wait E lock s))) = spun E lock (Suc k) s"
  by (simp add: spun_def ia32_pause_def upt_rec [of 0] map_Suc_upt [symmetric] del: upt_Suc)

lemma busy_wait_spun:
  assumes "\<forall>i<k. wait_lock_at E (wait_reads s + i) \<noteq> 0"
  shows "busy_wait E lock s = busy_wait E lock (spun E lock k s)"
  using assms
proof (induction k arbitrary: s)
  case 0
  show ?case by simp
next
  case (Suc k)
  let ?s = "ia32_pause (snd (read_lock_wait E lock s))"
  have nz: "wait_lock_at E (wait_reads s) \<noteq> 0" using Suc.prems by force
  have r: "wait_reads ?s = Suc (wait_reads s)" by (simp add: ia32_pause_def)
  have a: "\<forall>i<k. wait_lock_at E (wait_reads ?s + i) \<noteq> 0" using Suc.prems r by auto
  have "busy_wait E lock s = busy_wait E lock ?s"
    using nz by (subst busy_wait.simps) simp
  also have "\<dots> = busy_wait E lock (spun E lock k ?s)" by (rule Suc.IH [OF a])
  finally show ?case by (simp only: spun_Suc)
qed

lemma busy_wait_NoneD:
  assumes "busy_wait E lock s = None"
  shows "\<forall>i. wait_lock_at E (wait_reads s + i) \<noteq> 0"
proof (rule ccontr)
  assume "\<not> (\<forall>i. wait_lock_at E (wait_reads s + i) \<noteq> 0)"
  then obtain j where "wait_lock_at E (wait_reads s + j) = 0" by blast
  from ends_at_ex [OF this] obtain n where "ends_at E s n" by blast
  from busy_wait_ends [OF this] assms show False by simp
qed

lemma trace_spun:
  assumes "\<forall>e\<in>set (trace s). reads_only lock e"
  shows "\<forall>e\<in>set (trace (spun E lock k s)). reads_only lock e"
  using assms by (auto simp: spun_def)

lemma run_scenario_B: "rte_try_tm scenario_B 0 = None"
proof -
  have d: "busy_wait scenario_B 0 (aborted scenario_B 0 hw0) = None"
    by (rule busy_wait_diverges) (simp add: scenario_B_def)
  have x: "xbegin_at scenario_B (xbegins hw0) = RTE_XBEGIN_STARTED"
    and l: "txn_lock_at scenario_B (txn_reads hw0) \<noteq> 0"
    by (simp_all add: scenario_B_def)
  have "iteration scenario_B 0 19 hw0 = None"
    unfolding iteration_lock_busy [OF x l] by (simp only: on_abort_def d option.case)
  then show ?thesis
    by (simp add: rte_try_tm_def RTE_RTM_MAX_RETRIES_def try_loop_step)
qed

lemma iteration_Return1D:
  assumes "iteration E lock r s = Some (Return1 s1)"
  shows "xbegin_at E (xbegins s) = RTE_XBEGIN_STARTED \<and> txn_lock_at E (txn_reads s) = 0 \<and>
         s1 = entered E lock s"
  using assms by (cases rule: iteration_cases) simp_all

lemma try_loop_returns_1:
  assumes "try_loop E lock r s = Some (1, r', s')"
  shows "\<exists>s0 tr. s' = entered E lock s0 \<and> trace s0 = trace s @ tr \<and>
           xbegin_at E (xbegins s0) = RTE_XBEGIN_STARTED \<and> txn_lock_at E (txn_reads s0) = 0"
  using assms
proof (induction E lock r s rule: try_loop.induct)
  case (1 E lock r s)
  show ?case
  proof (cases "r = 0")
    case True
    with "1.prems" show ?thesis by (simp add: try_loop_exhausted)
  next
    case False
    from "1.prems" obtain oc where oc: "iteration E lock (r - 1) s = Some oc"
      by (auto simp: try_loop_step [OF False] split: option.splits)
    show ?thesis
    proof (cases oc)
      case (Return1 s1)
      with oc "1.prems" have "s' = s1" by (simp add: try_loop_step [OF False])
      with iteration_Return1D [of E lock "r - 1" s s1] oc Return1 show ?thesis by auto
    next
      case (Break s1)
      with oc "1.prems" show ?thesis by (simp add: try_loop_step [OF False])
    next
      case (Continue s1)
      with oc "1.prems" have run: "try_loop E lock (r - 1) s1 = Some (1, r', s')"
        by (simp add: try_loop_step [OF False])
      from "1.IH" [OF False oc Continue run] obtain s0 tr' where
        ih: "s' = entered E lock s0" "trace s0 = trace s1 @ tr'"
            "xbegin_at E (xbegins s0) = RTE_XBEGIN_STARTED" "txn_lock_at E (txn_reads s0) = 0"
        by blast
      from iteration_trace [OF oc] Continue obtain tr where "trace s1 = trace s @ tr"
        by auto
      with ih(2) have "trace s0 = trace s @ (tr @ tr')" by simp
      with ih(1,3,4) show ?thesis by blast
    qed
  qed
qed

section \<open>Every loop head of every run\<close>

lemma loop_head_run:
  assumes "loop_head E lock r s"
  shows "try_loop E lock r s = rte_try_tm E lock"
  using assms
proof (induction rule: loop_head.induct)
  case first_pass
  show ?case by (simp add: rte_try_tm_def)
next
  case (next_pass retries s s')
  then show ?case by (simp add: try_loop_step)
qed

lemma loop_head_inv:
  assumes "loop_head E lock r s"
  shows "xbegins s + unat r = 20 \<and> (\<forall>e\<in>set (trace s). reads_only lock e) \<and>
         (\<forall>b\<in>set (backoffs s). sound_backoff b)"
  using assms
proof (induction rule: loop_head.induct)
  case first_pass
  show ?case by (simp add: hw0_def RTE_RTM_MAX_RETRIES_def)
next
  case (next_pass retries s s')
  from next_pass.hyps(2) have pos: "1 \<le> unat retries" by (simp add: unat_gt_0 Suc_le_eq)
  have dec: "unat (retries - 1) = unat retries - 1"
    using next_pass.hyps(2) by (simp add: unat_minus_one)
  have le: "unat retries \<le> 20" using next_pass.IH by simp
  have x: "xbegins s' = Suc (xbegins s)"
    using iteration_xbegins [OF next_pass.hyps(3)] by simp
  from iteration_trace [OF next_pass.hyps(3)] obtain tr where
    tr: "trace s' = trace s @ tr" "\<forall>e\<in>set tr. reads_only lock e" by auto
  have entry: "sound_backoff (backoff_entry E (retries - 1) s0)" for s0
    using dec pos le by (simp add: sound_backoff_def)
  from iteration_backoffs [OF next_pass.hyps(3)] entry next_pass.IH
  have b: "\<forall>b\<in>set (backoffs s'). sound_backoff b" by auto
  from x dec pos tr b next_pass.IH show ?case by auto
qed

lemma iteration_None_iff:
  "iteration E lock r s = None \<longleftrightarrow>
     (xbegin_at E (xbegins s) \<noteq> RTE_XBEGIN_STARTED \<and> busy_wait E lock (begun E s) = None) \<or>
     (xbegin_at E (xbegins s) = RTE_XBEGIN_STARTED \<and> txn_lock_at E (txn_reads s) \<noteq> 0 \<and>
      busy_wait E lock (aborted E lock s) = None)"
proof (cases "xbegin_at E (xbegins s) = RTE_XBEGIN_STARTED")
  case True
  show ?thesis
  proof (cases "txn_lock_at E (txn_reads s) = 0")
    case z: True
    with True show ?thesis by (simp add: iteration_entered)
  next
    case nz: False
    with True show ?thesis
      by (auto simp: iteration_lock_busy on_abort_def split: option.splits)
  qed
next
  case False
  then show ?thesis
    by (auto simp: iteration_failed on_abort_def split: option.splits)
qed

lemma hang_reaches:
  assumes "try_loop E lock r s = None" and "loop_head E lock r s"
  shows "\<exists>r0 s0. loop_head E lock r0 s0 \<and> r0 \<noteq> 0 \<and> iteration E lock (r0 - 1) s0 = None"
  using assms
proof (induction E lock r s rule: try_loop.induct)
  case (1 E lock r s)
  show ?case
  proof (cases "r = 0")
    case True
    with "1.prems"(1) show ?thesis by (simp add: try_loop_exhausted)
  next
    case False
    show ?thesis
    proof (cases "iteration E lock (r - 1) s")
      case None
      with False "1.prems"(2) show ?thesis by blast
    next
      case (Some oc)
      show ?thesis
      proof (cases oc)
        case (Return1 s1)
        with Some "1.prems"(1) show ?thesis by (simp add: try_loop_step [OF False])
      next
        case (Break s1)
        with Some "1.prems"(1) show ?thesis by (simp add: try_loop_step [OF False])
      next
        case (Continue s1)
        with Some "1.prems"(1) have run: "try_loop E lock (r - 1) s1 = None"
          by (simp add: try_loop_step [OF False])
        have "loop_head E lock (r - 1) s1"
          using "1.prems"(2) False Some Continue by (auto intro: next_pass)
        from "1.IH" [OF False Some Continue run this] show ?thesis .
      qed
    qed
  qed
qed

lemma never_returns_hangs_in_busy_wait:
  assumes "rte_try_tm E lock = None"
  shows "\<exists>r s. loop_head E lock r s \<and> r \<noteq> 0 \<and>
           (xbegin_at E (xbegins s) \<noteq> RTE_XBEGIN_STARTED \<and>
              busy_wait E lock (begun E s) = None \<or>
            xbegin_at E (xbegins s) = RTE_XBEGIN_STARTED \<and> txn_lock_at E (txn_reads s) \<noteq> 0 \<and>
              busy_wait E lock (aborted E lock s) = None)"
proof -
  have "try_loop E lock RTE_RTM_MAX_RETRIES hw0 = None"
    using assms by (simp add: rte_try_tm_def)
  from hang_reaches [OF this first_pass] show ?thesis
    by (simp add: iteration_None_iff)
qed

lemma busy_waits_end:
  assumes "\<forall>k. \<exists>j. wait_lock_at E (k + j) = 0"
  shows "busy_wait E lock s \<noteq> None"
proof
  assume "busy_wait E lock s = None"
  from busy_wait_NoneD [OF this] assms show False by blast
qed

lemma try_loop_counts_Some:
  assumes "try_loop E lock r s = Some (ret, r', s')"
  shows "(ret = 0 \<or> ret = 1) \<and>
         (\<exists>n. xbegins s' = xbegins s + n \<and> n \<le> unat r \<and>
           (1 \<le> n \<and> r' = r - of_nat n \<or> n = unat r \<and> ret = 0 \<and> r' = - 1))"
  using assms
proof (induction E lock r s rule: try_loop.induct)
  case (1 E lock r s)
  show ?case
  proof (cases "r = 0")
    case True
    with "1.prems" show ?thesis by (simp add: try_loop_exhausted)
  next
    case False
    then have pos: "1 \<le> unat r" by (simp add: unat_gt_0 Suc_le_eq)
    have dec: "unat (r - 1) = unat r - 1" using False by (simp add: unat_minus_one)
    from "1.prems" obtain oc where oc: "iteration E lock (r - 1) s = Some oc"
      by (auto simp: try_loop_step [OF False] split: option.splits)
    note xb = iteration_xbegins [OF oc]
    show ?thesis
    proof (cases oc)
      case (Return1 s1)
      with oc "1.prems" have "ret = 1" "r' = r - 1" "s' = s1"
        by (simp_all add: try_loop_step [OF False])
      with xb Return1 pos show ?thesis by auto
    next
      case (Break s1)
      with oc "1.prems" have "ret = 0" "r' = r - 1" "s' = s1"
        by (simp_all add: try_loop_step [OF False])
      with xb Break pos show ?thesis by auto
    next
      case (Continue s1)
      with oc "1.prems" have run: "try_loop E lock (r - 1) s1 = Some (ret, r', s')"
        by (simp add: try_loop_step [OF False])
      from "1.IH" [OF False oc Continue run] obtain n where
        ih: "ret = 0 \<or> ret = 1" "xbegins s' = xbegins s1 + n" "n \<le> unat (r - 1)"
            "1 \<le> n \<and> r' = r - 1 - of_nat n \<or> n = unat (r - 1) \<and> ret = 0 \<and> r' = - 1"
        by blast
      have x: "xbegins s' = xbegins s + Suc n" using ih(2) xb Continue by simp
      have le: "Suc n \<le> unat r" using ih(3) dec pos by simp
      have "1 \<le> Suc n \<and> r' = r - of_nat (Suc n) \<or> Suc n = unat r \<and> ret = 0 \<and> r' = - 1"
        using ih(4) dec pos by auto
      with ih(1) x le show ?thesis by blast
    qed
  qed
qed

lemma run_scenario_A:
  "rte_try_tm scenario_A 0 =
     Some (1, 19, hw0\<lparr>xbegins := 1, txn_reads := 1,
                      trace := [XBegin RTE_XBEGIN_STARTED, Load 0 0]\<rparr>)"
  by (simp add: rte_try_tm_def RTE_RTM_MAX_RETRIES_def try_loop.simps [of _ _ 20]
      iteration_def hw0_def scenario_A_def)

lemma sound_backoffs_increasing:
  assumes "\<forall>b\<in>set bs. sound_backoff b"
  shows "\<forall>b\<in>set bs. \<forall>c\<in>set bs.
            jitter (bo_tsc b) = jitter (bo_tsc c) \<and>
            sint (bo_try_count b) < sint (bo_try_count c) \<longrightarrow>
            sint (bo_pause_count b) < sint (bo_pause_count c)"
proof (intro ballI impI)
  fix b c
  assume b: "b \<in> set bs" and c: "c \<in> set bs"
    and h: "jitter (bo_tsc b) = jitter (bo_tsc c) \<and> sint (bo_try_count b) < sint (bo_try_count c)"
  from b c assms have sb: "sound_backoff b" and sc: "sound_backoff c" by blast+
  note vb = sound_backoff_values [OF sb] and vc = sound_backoff_values [OF sc]
  define j where "j = uint (jitter (bo_tsc c))"
  have j: "0 < j" using uint_jitter_pos by (simp add: j_def)
  have "nat (sint (bo_try_count b)) < nat (sint (bo_try_count c))"
    using h vb vc by simp
  then have "(2::int) ^ nat (sint (bo_try_count b)) < 2 ^ nat (sint (bo_try_count c))"
    by simp
  then have "j * 2 ^ nat (sint (bo_try_count b)) < j * 2 ^ nat (sint (bo_try_count c))"
    using j by (rule mult_strict_left_mono)
  then show "sint (bo_pause_count b) < sint (bo_pause_count c)"
    using vb vc h by (simp add: j_def)
qed

lemma run_scenario_E_head:
  "loop_head scenario_E 0 18
       \<lparr>xbegins = 2, txn_reads = 0, wait_reads = 2, tscs = 2, pauses = 30,
        trace = [XBegin 4, Load 0 0, Rdtsc 0x9abcdef01234567d,
                 XBegin 4, Load 0 0, Rdtsc 0x9abcdef01234567d],
        backoffs = [\<lparr>bo_retries = 19, bo_try_count = 1, bo_tsc = 0x9abcdef01234567d,
                      bo_pause_count = 10\<rparr>,
                    \<lparr>bo_retries = 18, bo_try_count = 2, bo_tsc = 0x9abcdef01234567d,
                      bo_pause_count = 20\<rparr>]\<rparr>"
proof -
  note defs = iteration_def on_abort_def
      busy_wait.simps backoff_def pause_loop_eq Let_def scenario_E_def hw0_def
      RTE_XABORT_CONFLICT_def RTE_XBEGIN_STARTED_def transient_def try_count_of_def
      pause_count_of_def jitter_def dpdk_rdtsc_or RTE_RTM_MAX_RETRIES_def
  have h20: "loop_head scenario_E 0 20 hw0"
    using first_pass [of scenario_E 0] by (simp add: RTE_RTM_MAX_RETRIES_def)
  have "iteration scenario_E 0 (20 - 1) hw0 = Some (Continue
       \<lparr>xbegins = 1, txn_reads = 0, wait_reads = 1, tscs = 1, pauses = 10,
        trace = [XBegin 4, Load 0 0, Rdtsc 0x9abcdef01234567d],
        backoffs = [\<lparr>bo_retries = 19, bo_try_count = 1, bo_tsc = 0x9abcdef01234567d,
                      bo_pause_count = 10\<rparr>]\<rparr>)"
    by (simp add: defs)
  from next_pass [OF h20 _ this] have h19: "loop_head scenario_E 0 19
       \<lparr>xbegins = 1, txn_reads = 0, wait_reads = 1, tscs = 1, pauses = 10,
        trace = [XBegin 4, Load 0 0, Rdtsc 0x9abcdef01234567d],
        backoffs = [\<lparr>bo_retries = 19, bo_try_count = 1, bo_tsc = 0x9abcdef01234567d,
                      bo_pause_count = 10\<rparr>]\<rparr>"
    by simp
  have "iteration scenario_E 0 (19 - 1)
       \<lparr>xbegins = 1, txn_reads = 0, wait_reads = 1, tscs = 1, pauses = 10,
        trace = [XBegin 4, Load 0 0, Rdtsc 0x9abcdef01234567d],
        backoffs = [\<lparr>bo_retries = 19, bo_try_count = 1, bo_tsc = 0x9abcdef01234567d,
                      bo_pause_count = 10\<rparr>]\<rparr> = Some (Continue
       \<lparr>xbegins = 2, txn_reads = 0, wait_reads = 2, tscs = 2, pauses = 30,
        trace = [XBegin 4, Load 0 0, Rdtsc 0x9abcdef01234567d,
                 XBegin 4, Load 0 0, Rdtsc 0x9abcdef01234567d],
        backoffs = [\<lparr>bo_retries = 19, bo_try_count = 1, bo_tsc = 0x9abcdef01234567d,
                      bo_pause_count = 10\<rparr>,
                    \<lparr>bo_retries = 18, bo_try_count = 2, bo_tsc = 0x9abcdef01234567d,
                      bo_pause_count = 20\<rparr>]\<rparr>)"
    by (simp add: defs)
  from next_pass [OF h19 _ this] show ?thesis by simp
qed

lemma run_scenario_B_head: "loop_head scenario_B 0 RTE_RTM_MAX_RETRIES hw0"
  by (rule first_pass)

section \<open>Claim C1: the first attempt enters\<close>

text \<open>
  Claim C1. When the first \<open>XBEGIN\<close> reports STARTED and the flag read inside the
  transaction is 0, \<open>rte_try_tm\<close> returns 1 from its first pass through the loop: the
  trace holds that one \<open>XBEGIN\<close>, the one load of the flag and nothing else (no
  \<open>XABORT\<close>, no second \<open>XBEGIN\<close>, no pause, no \<open>rdtsc\<close>), so no attempt failed and
  nothing was retried. The counter stands at 19: the loop head has decremented it
  once, before the body ran.
\<close>

theorem first_attempt_enters:
  assumes "xbegin_at E 0 = RTE_XBEGIN_STARTED" and "txn_lock_at E 0 = 0"
  shows "rte_try_tm E lock =
           Some (1, 19, hw0\<lparr>xbegins := 1, txn_reads := 1,
                            trace := [XBegin RTE_XBEGIN_STARTED, Load lock 0]\<rparr>)"
  using assms
  by (simp add: rte_try_tm_def RTE_RTM_MAX_RETRIES_def try_loop.simps [of _ _ 20]
      iteration_def hw0_def)

theorem first_attempt_enters_witness:
  "xbegin_at scenario_A 0 = RTE_XBEGIN_STARTED \<and> txn_lock_at scenario_A 0 = 0 \<and>
   rte_try_tm scenario_A 0 =
     Some (1, 19, hw0\<lparr>xbegins := 1, txn_reads := 1,
                      trace := [XBegin RTE_XBEGIN_STARTED, Load 0 0]\<rparr>)"
  using first_attempt_enters [of scenario_A 0] by (simp add: scenario_A_def)

section \<open>Claim C2: termination and the retry budget\<close>

text \<open>
  Claim C2. Whatever the \<open>XBEGIN\<close> results and the flag are, \<open>rte_try_tm\<close> executes at
  most 20 \<open>XBEGIN\<close>s, one per pass, and the only thing that can keep it from returning
  is a busy-wait that never ends:
  \<^item> a run that returns returns 0 or 1 after at most 20 \<open>XBEGIN\<close>s; leaving from inside
    the \<open>k\<close>-th pass (\<open>return 1\<close> or \<open>break\<close>) the counter is \<open>20 - k\<close>, leaving because
    the loop head found it 0 after 20 passes it is \<open>-1\<close>, the decrement of that last
    test;
  \<^item> a run that does not return has come to a loop head after fewer than 20
    \<open>XBEGIN\<close>s and spins for ever in the busy-wait of the pass that starts there;
  \<^item> if the flag is such that every busy-wait ends (from any read on, the busy-wait
    loads a zero after finitely many reads), the run returns;
  \<^item> at every loop head of every run the counter is 20 minus the number of passes
    made (each pass has executed one \<open>XBEGIN\<close>): it starts at 20 and the loop head
    decrements it once before each pass.
\<close>

theorem bounded_retries_terminate:
  "(rte_try_tm E lock = Some (ret, r', s') \<longrightarrow>
      (ret = 0 \<or> ret = 1) \<and> xbegins s' \<le> 20 \<and>
      (1 \<le> xbegins s' \<and> sint r' = 20 - int (xbegins s') \<or>
       xbegins s' = 20 \<and> ret = 0 \<and> sint r' = - 1)) \<and>
   (rte_try_tm E lock = None \<longrightarrow>
      (\<exists>retries s. loop_head E lock retries s \<and> retries \<noteq> 0 \<and> xbegins s < 20 \<and>
         (busy_wait E lock (begun E s) = None \<or> busy_wait E lock (aborted E lock s) = None))) \<and>
   ((\<forall>k. \<exists>j. wait_lock_at E (k + j) = 0) \<longrightarrow>
      (\<exists>ret r' s'. rte_try_tm E lock = Some (ret, r', s'))) \<and>
   (loop_head E lock retries s \<longrightarrow> sint retries = 20 - int (xbegins s) \<and> xbegins s \<le> 20)"
proof (intro conjI impI)
  assume run: "rte_try_tm E lock = Some (ret, r', s')"
  from try_loop_counts_Some [of E lock RTE_RTM_MAX_RETRIES hw0 ret r' s'] run
  obtain n where ret: "ret = 0 \<or> ret = 1"
    and x: "xbegins s' = n" and le: "n \<le> 20"
    and c: "1 \<le> n \<and> r' = RTE_RTM_MAX_RETRIES - of_nat n \<or> n = 20 \<and> ret = 0 \<and> r' = - 1"
    by (auto simp: rte_try_tm_def hw0_def RTE_RTM_MAX_RETRIES_def)
  from c have "1 \<le> n \<and> sint r' = 20 - int n \<or> n = 20 \<and> ret = 0 \<and> sint r' = - 1"
    using sint_retries_left [OF le] by auto
  with ret x le show "ret = 0 \<or> ret = 1" "xbegins s' \<le> 20"
    "1 \<le> xbegins s' \<and> sint r' = 20 - int (xbegins s') \<or>
       xbegins s' = 20 \<and> ret = 0 \<and> sint r' = - 1"
    by auto
next
  assume "rte_try_tm E lock = None"
  from never_returns_hangs_in_busy_wait [OF this] obtain r s where
    h: "loop_head E lock r s" "r \<noteq> 0"
       "busy_wait E lock (begun E s) = None \<or> busy_wait E lock (aborted E lock s) = None"
    by blast
  from loop_head_inv [OF h(1)] h(2) have "xbegins s < 20"
    using unat_gt_0 [of r] by simp
  with h show "\<exists>retries s. loop_head E lock retries s \<and> retries \<noteq> 0 \<and> xbegins s < 20 \<and>
         (busy_wait E lock (begun E s) = None \<or> busy_wait E lock (aborted E lock s) = None)"
    by blast
next
  assume W: "\<forall>k. \<exists>j. wait_lock_at E (k + j) = 0"
  have "rte_try_tm E lock \<noteq> None"
  proof
    assume "rte_try_tm E lock = None"
    from never_returns_hangs_in_busy_wait [OF this] busy_waits_end [OF W]
    show False by blast
  qed
  then show "\<exists>ret r' s'. rte_try_tm E lock = Some (ret, r', s')" by auto
next
  assume h: "loop_head E lock retries s"
  from loop_head_inv [OF h] have e: "xbegins s + unat retries = 20" by simp
  then have le: "xbegins s \<le> 20" by simp
  have u: "unat retries = 20 - xbegins s" using e by simp
  have "(of_nat (unat retries) :: u32) = retries" by simp
  then have "retries = of_nat (20 - xbegins s)" unfolding u by simp
  also have "\<dots> = RTE_RTM_MAX_RETRIES - of_nat (xbegins s)"
    using le by (simp add: RTE_RTM_MAX_RETRIES_def)
  finally have "sint retries = 20 - int (xbegins s)"
    using sint_retries_left [OF le] by simp
  with le show "sint retries = 20 - int (xbegins s)" "xbegins s \<le> 20" by simp_all
qed

theorem bounded_retries_terminate_witness:
  "rte_try_tm scenario_A 0 =
     Some (1, 19, hw0\<lparr>xbegins := 1, txn_reads := 1,
                      trace := [XBegin RTE_XBEGIN_STARTED, Load 0 0]\<rparr>) \<and>
   (\<forall>k. \<exists>j. wait_lock_at scenario_A (k + j) = 0) \<and>
   (\<exists>ret r' s'. rte_try_tm scenario_A 0 = Some (ret, r', s')) \<and>
   rte_try_tm scenario_B 0 = None \<and>
   (\<exists>retries s. loop_head scenario_B 0 retries s \<and> retries \<noteq> 0 \<and> xbegins s < 20 \<and>
         (busy_wait scenario_B 0 (begun scenario_B s) = None \<or>
          busy_wait scenario_B 0 (aborted scenario_B 0 s) = None)) \<and>
   loop_head scenario_A 0 RTE_RTM_MAX_RETRIES hw0 \<and>
   sint RTE_RTM_MAX_RETRIES = 20 - int (xbegins hw0) \<and> xbegins hw0 \<le> 20"
proof -
  have w: "\<forall>k. \<exists>j. wait_lock_at scenario_A (k + j) = 0" by (simp add: scenario_A_def)
  have h: "loop_head scenario_A 0 RTE_RTM_MAX_RETRIES hw0" by (rule first_pass)
  note th = bounded_retries_terminate
  note a = th [of scenario_A 0 1 19 _ RTE_RTM_MAX_RETRIES hw0, THEN conjunct1, rule_format,
      OF run_scenario_A]
  note b = th [of scenario_B 0 0 0 hw0 0 hw0, THEN conjunct2, THEN conjunct1, rule_format,
      OF run_scenario_B]
  note c = th [of scenario_A 0 0 0 hw0 0 hw0, THEN conjunct2, THEN conjunct2, THEN conjunct1,
      THEN mp, OF w]
  note d = th [of scenario_A 0 0 0 hw0 RTE_RTM_MAX_RETRIES hw0, THEN conjunct2, THEN conjunct2,
      THEN conjunct2, rule_format, OF h]
  from a b c d w h run_scenario_A run_scenario_B show ?thesis by simp
qed

section \<open>Claim C3: the flag held while every transaction starts\<close>

text \<open>
  Claim C3, as stated, fails. With the flag nonzero at every read, the first pass
  starts its transaction, loads the flag, executes \<open>XABORT 0xff\<close> and resumes after
  the \<open>XBEGIN\<close> with the abort status; the busy-wait of line 84 then spins on the
  flag for ever. \<open>rte_try_tm\<close> does not return, with \<open>MustFallback\<close> or otherwise.
\<close>

theorem held_flag_never_returns:
  "rte_try_tm scenario_B 0 = None"
  by (rule run_scenario_B)

text \<open>
  Claim C3, amended. If every \<open>XBEGIN\<close> reports STARTED and the flag is nonzero at
  every read inside a transaction, and every busy-wait ends (it loads a zero after
  finitely many reads), then each pass loads the flag in its transaction and executes
  \<open>XABORT 0xff\<close>, and each pass consumes one retry: the passes see the counter at
  19, 18, ..., 0. \<open>rte_try_tm\<close> returns 0 after exactly 20 passes (20 \<open>XBEGIN\<close>s, 20
  loads inside a transaction, 20 \<open>XABORT\<close>s, all with code 0xff).
\<close>

theorem lock_busy_every_attempt:
  assumes "\<forall>n. xbegin_at E n = RTE_XBEGIN_STARTED" and "\<forall>n. txn_lock_at E n \<noteq> 0"
    and "\<forall>k. \<exists>j. wait_lock_at E (k + j) = 0"
  shows "\<exists>r' s'. rte_try_tm E lock = Some (0, r', s') \<and> sint r' = - 1 \<and>
           xbegins s' = 20 \<and> txn_reads s' = 20 \<and>
           filter is_xabort (trace s') = replicate 20 (XAbort 0xff) \<and>
           map bo_retries (backoffs s') = map of_nat (rev [0..<20])"
  using try_loop_all_lock_busy [OF assms, of lock RTE_RTM_MAX_RETRIES hw0]
  by (auto simp: rte_try_tm_def hw0_def RTE_RTM_MAX_RETRIES_def RTE_XABORT_LOCK_BUSY_def)

theorem lock_busy_every_attempt_witness:
  "(\<forall>n. xbegin_at scenario_B_released n = RTE_XBEGIN_STARTED) \<and>
   (\<forall>n. txn_lock_at scenario_B_released n \<noteq> 0) \<and>
   (\<forall>k. \<exists>j. wait_lock_at scenario_B_released (k + j) = 0) \<and>
   (\<exists>r' s'. rte_try_tm scenario_B_released 0 = Some (0, r', s') \<and> sint r' = - 1 \<and>
           xbegins s' = 20 \<and> txn_reads s' = 20 \<and>
           filter is_xabort (trace s') = replicate 20 (XAbort 0xff) \<and>
           map bo_retries (backoffs s') = map of_nat (rev [0..<20]))"
proof -
  have a: "\<forall>n. xbegin_at scenario_B_released n = RTE_XBEGIN_STARTED"
    and b: "\<forall>n. txn_lock_at scenario_B_released n \<noteq> 0"
    and c: "\<forall>k. \<exists>j. wait_lock_at scenario_B_released (k + j) = 0"
    by (simp_all add: scenario_B_released_def)
  from lock_busy_every_attempt [OF a b c, of 0] a b c show ?thesis by blast
qed

section \<open>Claim C4: an abort that is not worth a retry\<close>

text \<open>
  Claim C4, as stated, fails. The status is classified after the busy-wait of line
  84 only. With the capacity flag alone in the status and the flag held at every
  read, \<open>rte_try_tm\<close> spins in that busy-wait and returns nothing.
\<close>

theorem capacity_abort_held_flag_never_returns:
  "rte_try_tm scenario_D_held 0 = None"
proof -
  have d: "busy_wait scenario_D_held 0 (begun scenario_D_held hw0) = None"
    by (rule busy_wait_diverges) (simp add: scenario_D_held_def)
  have x: "xbegin_at scenario_D_held (xbegins hw0) \<noteq> RTE_XBEGIN_STARTED"
    by (simp add: scenario_D_held_def RTE_XABORT_CAPACITY_def RTE_XBEGIN_STARTED_def)
  have "iteration scenario_D_held 0 19 hw0 = None"
    unfolding iteration_failed [OF x] by (simp only: on_abort_def d option.case)
  then show ?thesis
    by (simp add: rte_try_tm_def RTE_RTM_MAX_RETRIES_def try_loop_step)
qed

text \<open>
  Claim C4, amended. Let the \<open>XBEGIN\<close> of a pass return a status with the conflict flag
  clear, not (explicit with code 0xff), and the retry flag clear. Once the busy-wait
  on the flag has ended (after \<open>n\<close> nonzero loads here), the loop is left by \<open>break\<close>
  and 0 is returned, whatever the counter \<open>retries\<close> still holds: no further \<open>XBEGIN\<close>
  is executed, no back-off is made. With \<open>retries = 20\<close> and the initial machine this
  is \<open>rte_try_tm\<close> ending in its first pass.
\<close>

theorem non_retryable_abort_breaks:
  assumes "retries \<noteq> 0"
    and "xbegin_at E (xbegins s) = status"
    and "(status AND RTE_XABORT_CONFLICT) = 0"
    and "\<not> ((status AND RTE_XABORT_EXPLICIT) \<noteq> 0 \<and>
            RTE_XABORT_CODE status = RTE_XABORT_LOCK_BUSY)"
    and "(status AND RTE_XABORT_RETRY) = 0"
    and "ends_at E s n"
  shows "try_loop E lock retries s = Some (0, retries - 1, waited E lock n (begun E s)) \<and>
         xbegins (waited E lock n (begun E s)) = Suc (xbegins s) \<and>
         tscs (waited E lock n (begun E s)) = tscs s \<and>
         backoffs (waited E lock n (begun E s)) = backoffs s"
proof -
  have ns: "xbegin_at E (xbegins s) \<noteq> RTE_XBEGIN_STARTED"
    using assms(2,3) conflict_clear_not_started by blast
  have nt: "\<not> transient status" using assms(3,4) by (simp add: transient_def)
  have e: "ends_at E (begun E s) n" using assms(6) by (simp add: ends_at_def)
  have "iteration E lock (retries - 1) s = Some (Break (waited E lock n (begun E s)))"
    unfolding iteration_failed [OF ns] on_abort_ends [OF e] using nt assms(2,5) by simp
  then show ?thesis by (simp add: try_loop_step [OF assms(1)])
qed

theorem non_retryable_abort_breaks_witness:
  "RTE_RTM_MAX_RETRIES \<noteq> 0 \<and>
   xbegin_at scenario_D (xbegins hw0) = RTE_XABORT_CAPACITY \<and>
   (RTE_XABORT_CAPACITY AND RTE_XABORT_CONFLICT) = 0 \<and>
   (RTE_XABORT_CAPACITY AND RTE_XABORT_EXPLICIT) = 0 \<and>
   (RTE_XABORT_CAPACITY AND RTE_XABORT_RETRY) = 0 \<and>
   ends_at scenario_D hw0 0 \<and>
   rte_try_tm scenario_D 0 =
     Some (0, 19, hw0\<lparr>xbegins := 1, wait_reads := 1, trace := [XBegin 8, Load 0 0]\<rparr>)"
proof -
  have a: "RTE_RTM_MAX_RETRIES \<noteq> 0" by (simp add: RTE_RTM_MAX_RETRIES_def)
  have b: "xbegin_at scenario_D (xbegins hw0) = RTE_XABORT_CAPACITY"
    by (simp add: scenario_D_def)
  have c: "(RTE_XABORT_CAPACITY AND RTE_XABORT_CONFLICT) = 0"
    by (simp add: RTE_XABORT_CAPACITY_def RTE_XABORT_CONFLICT_def)
  have d: "(RTE_XABORT_CAPACITY AND RTE_XABORT_EXPLICIT) = 0"
    by (simp add: RTE_XABORT_CAPACITY_def RTE_XABORT_EXPLICIT_def)
  then have d': "\<not> ((RTE_XABORT_CAPACITY AND RTE_XABORT_EXPLICIT) \<noteq> 0 \<and>
            RTE_XABORT_CODE RTE_XABORT_CAPACITY = RTE_XABORT_LOCK_BUSY)" by simp
  have e: "(RTE_XABORT_CAPACITY AND RTE_XABORT_RETRY) = 0"
    by (simp add: RTE_XABORT_CAPACITY_def RTE_XABORT_RETRY_def)
  have f: "ends_at scenario_D hw0 0" by (simp add: ends_at_def scenario_D_def)
  have "waited scenario_D 0 0 (begun scenario_D hw0) =
          hw0\<lparr>xbegins := 1, wait_reads := 1, trace := [XBegin 8, Load 0 0]\<rparr>"
    by (simp add: waited_def begun_def hw0_def scenario_D_def RTE_XABORT_CAPACITY_def)
  with non_retryable_abort_breaks [OF a b c d' e f, of 0] a b c d e f
  show ?thesis by (simp add: rte_try_tm_def RTE_RTM_MAX_RETRIES_def)
qed

section \<open>Claim C5: a transient abort\<close>

text \<open>
  Claim C5, as stated, fails, for the reason C4 does: with a conflict status and the
  flag held at every read, the pass never gets from the busy-wait to the
  classification; no back-off is computed and \<open>rte_try_tm\<close> returns nothing.
\<close>

theorem conflict_abort_held_flag_never_returns:
  "rte_try_tm scenario_C_held 0 = None"
proof -
  have d: "busy_wait scenario_C_held 0 (begun scenario_C_held hw0) = None"
    by (rule busy_wait_diverges) (simp add: scenario_C_held_def)
  have x: "xbegin_at scenario_C_held (xbegins hw0) \<noteq> RTE_XBEGIN_STARTED"
    by (simp add: scenario_C_held_def RTE_XABORT_CONFLICT_def RTE_XABORT_RETRY_def
        RTE_XBEGIN_STARTED_def)
  have "iteration scenario_C_held 0 19 hw0 = None"
    unfolding iteration_failed [OF x] by (simp only: on_abort_def d option.case)
  then show ?thesis
    by (simp add: rte_try_tm_def RTE_RTM_MAX_RETRIES_def try_loop_step)
qed

text \<open>
  Claim C5, amended. Let the \<open>XBEGIN\<close> of a pass return an abort status (not STARTED)
  with the conflict flag set, or with the explicit flag set and code 0xff. Once the
  busy-wait on the flag has ended (after \<open>n\<close> nonzero loads here), the pass reads the
  cycle counter once, computes \<open>pause_count\<close> from it and from \<open>try_count\<close>, executes
  that many pauses and continues: the loop goes on with the counter one lower and no
  other \<open>XBEGIN\<close> executed. The retry flag of the status is not among the
  hypotheses: the outcome is the same whether it is set or not.
\<close>

theorem transient_abort_backs_off:
  assumes "retries \<noteq> 0"
    and "xbegin_at E (xbegins s) = status"
    and "status \<noteq> RTE_XBEGIN_STARTED"
    and "(status AND RTE_XABORT_CONFLICT) \<noteq> 0 \<or>
         ((status AND RTE_XABORT_EXPLICIT) \<noteq> 0 \<and>
          RTE_XABORT_CODE status = RTE_XABORT_LOCK_BUSY)"
    and "ends_at E s n"
    and "s1 = backoff E (retries - 1) (waited E lock n (begun E s))"
    and "tsc = dpdk_rdtsc (fst (tsc_at E (tscs s))) (snd (tsc_at E (tscs s)))"
  shows "iteration E lock (retries - 1) s = Some (Continue s1) \<and>
         try_loop E lock retries s = try_loop E lock (retries - 1) s1 \<and>
         xbegins s1 = Suc (xbegins s) \<and> tscs s1 = Suc (tscs s) \<and>
         backoffs s1 = backoffs s @
           [\<lparr>bo_retries = retries - 1, bo_try_count = try_count_of (retries - 1), bo_tsc = tsc,
             bo_pause_count = pause_count_of tsc (try_count_of (retries - 1))\<rparr>] \<and>
         pauses s1 =
           pauses s + n + nat (sint (pause_count_of tsc (try_count_of (retries - 1))))"
proof -
  have ns: "xbegin_at E (xbegins s) \<noteq> RTE_XBEGIN_STARTED"
    using assms(2,3) by simp
  have t: "transient status" using assms(4) by (simp add: transient_def)
  have e: "ends_at E (begun E s) n" using assms(5) by (simp add: ends_at_def)
  have it: "iteration E lock (retries - 1) s = Some (Continue s1)"
    unfolding iteration_failed [OF ns] on_abort_ends [OF e] using t assms(2,6) by simp
  then have "try_loop E lock retries s = try_loop E lock (retries - 1) s1"
    by (simp add: try_loop_step [OF assms(1)])
  moreover have "xbegins s1 = Suc (xbegins s)" "tscs s1 = Suc (tscs s)"
    by (simp_all add: assms(6))
  moreover have "backoffs s1 = backoffs s @
           [\<lparr>bo_retries = retries - 1, bo_try_count = try_count_of (retries - 1), bo_tsc = tsc,
             bo_pause_count = pause_count_of tsc (try_count_of (retries - 1))\<rparr>]"
    by (simp add: assms(6,7) backoff_entry_def waited_def begun_def)
  moreover have "pauses s1 =
           pauses s + n + nat (sint (pause_count_of tsc (try_count_of (retries - 1))))"
    by (simp add: assms(6,7) backoff_entry_def waited_def begun_def)
  ultimately show ?thesis using it by blast
qed

theorem transient_abort_backs_off_witness:
  "RTE_RTM_MAX_RETRIES \<noteq> 0 \<and>
   xbegin_at scenario_C (xbegins hw0) = 6 \<and> 6 \<noteq> RTE_XBEGIN_STARTED \<and>
   (6 AND RTE_XABORT_CONFLICT) \<noteq> 0 \<and> (6 AND RTE_XABORT_RETRY) \<noteq> 0 \<and>
   ends_at scenario_C hw0 0 \<and>
   (\<exists>s1. iteration scenario_C 0 19 hw0 = Some (Continue s1) \<and>
         try_loop scenario_C 0 20 hw0 = try_loop scenario_C 0 19 s1 \<and>
         xbegins s1 = 1 \<and> tscs s1 = 1 \<and>
         backoffs s1 = [\<lparr>bo_retries = 19, bo_try_count = 1, bo_tsc = 0x9abcdef012345678,
                         bo_pause_count = 2\<rparr>] \<and>
         pauses s1 = 2)"
proof -
  have a: "RTE_RTM_MAX_RETRIES \<noteq> 0" by (simp add: RTE_RTM_MAX_RETRIES_def)
  have b: "xbegin_at scenario_C (xbegins hw0) = 6"
    by (simp add: scenario_C_def RTE_XABORT_CONFLICT_def RTE_XABORT_RETRY_def)
  have c: "(6::u32) \<noteq> RTE_XBEGIN_STARTED" by (simp add: RTE_XBEGIN_STARTED_def)
  have d: "(6 AND RTE_XABORT_CONFLICT) \<noteq> 0" by (simp add: RTE_XABORT_CONFLICT_def)
  have d': "(6 AND RTE_XABORT_RETRY) \<noteq> 0" by (simp add: RTE_XABORT_RETRY_def)
  have e: "ends_at scenario_C hw0 0" by (simp add: ends_at_def scenario_C_def)
  have t: "dpdk_rdtsc (fst (tsc_at scenario_C (tscs hw0))) (snd (tsc_at scenario_C (tscs hw0)))
             = 0x9abcdef012345678"
    by (simp add: scenario_C_def hw0_def dpdk_rdtsc_or)
  have r: "RTE_RTM_MAX_RETRIES - 1 = 19" "RTE_RTM_MAX_RETRIES = 20"
    by (simp_all add: RTE_RTM_MAX_RETRIES_def)
  have q: "try_count_of 19 = 1"
    by (simp add: try_count_of_def RTE_RTM_MAX_RETRIES_def)
  have p: "pause_count_of 0x9abcdef012345678 1 = 2"
    by (simp add: pause_count_of_def jitter_def)
  have h: "xbegins hw0 = 0" "tscs hw0 = 0" "pauses hw0 = 0" "backoffs hw0 = []"
    by (simp_all add: hw0_def)
  let ?s1 = "backoff scenario_C 19 (waited scenario_C 0 0 (begun scenario_C hw0))"
  note th = transient_abort_backs_off [OF a b c disjI1 [OF d] e refl t [symmetric], of 0,
      unfolded r q p h]
  have "iteration scenario_C 0 19 hw0 = Some (Continue ?s1) \<and>
         try_loop scenario_C 0 20 hw0 = try_loop scenario_C 0 19 ?s1 \<and>
         xbegins ?s1 = 1 \<and> tscs ?s1 = 1 \<and>
         backoffs ?s1 = [\<lparr>bo_retries = 19, bo_try_count = 1, bo_tsc = 0x9abcdef012345678,
                         bo_pause_count = 2\<rparr>] \<and>
         pauses ?s1 = 2"
    using th by (simp add: q p h)
  then have "\<exists>s1. iteration scenario_C 0 19 hw0 = Some (Continue s1) \<and>
         try_loop scenario_C 0 20 hw0 = try_loop scenario_C 0 19 s1 \<and>
         xbegins s1 = 1 \<and> tscs s1 = 1 \<and>
         backoffs s1 = [\<lparr>bo_retries = 19, bo_try_count = 1, bo_tsc = 0x9abcdef012345678,
                         bo_pause_count = 2\<rparr>] \<and>
         pauses s1 = 2"
    by (rule exI)
  with a b c d d' e show ?thesis by (simp only: simp_thms)
qed

section \<open>Claim C6: the pause count\<close>

text \<open>
  Claim C6. Every back-off of every run of \<open>rte_try_tm\<close>, returning or not, was
  computed with the counter \<open>retries\<close> between 0 and 19 (its value after the loop
  head's decrement), with \<open>try_count = 20 - retries\<close>, and with
  \<open>pause_count = jitter * 2 ^ try_count\<close> exactly: the shift of the \<open>int\<close> loses no bit
  and does not reach the sign. This is stated of the back-offs recorded when the run
  returns and of those recorded at any loop head. Of two back-offs with the same
  jitter, the one with the larger \<open>try_count\<close> has the strictly larger \<open>pause_count\<close>;
  so has, run or no run, any larger \<open>try_count\<close> up to 20 for the same cycle-counter
  value. The \<open>for\<close> loop executes exactly \<open>pause_count\<close> pauses.
\<close>

theorem pause_count_exact_and_increasing:
  "(rte_try_tm E lock = Some (ret, r', s') \<or> loop_head E lock retries s' \<longrightarrow>
      (\<forall>b\<in>set (backoffs s').
            0 \<le> sint (bo_retries b) \<and> sint (bo_retries b) \<le> 19 \<and>
            sint (bo_try_count b) = 20 - sint (bo_retries b) \<and>
            sint (bo_pause_count b) =
              uint (jitter (bo_tsc b)) * 2 ^ nat (sint (bo_try_count b))) \<and>
      (\<forall>b\<in>set (backoffs s'). \<forall>c\<in>set (backoffs s').
            jitter (bo_tsc b) = jitter (bo_tsc c) \<and>
            sint (bo_try_count b) < sint (bo_try_count c) \<longrightarrow>
            sint (bo_pause_count b) < sint (bo_pause_count c))) \<and>
   (\<forall>t1 t2. t1 < t2 \<and> t2 \<le> 20 \<longrightarrow>
            sint (pause_count_of tsc (of_nat t1)) < sint (pause_count_of tsc (of_nat t2))) \<and>
   pauses (backoff E0 r0 s0) =
     pauses s0 + nat (sint (pause_count_of (fst (rte_rdtsc E0 s0)) (try_count_of r0)))"
proof (intro conjI impI)
  assume "rte_try_tm E lock = Some (ret, r', s') \<or> loop_head E lock retries s'"
  then have snd: "\<forall>b\<in>set (backoffs s'). sound_backoff b"
    using rte_try_tm_backoffs_sound [of E lock ret r' s'] loop_head_inv [of E lock retries s']
    by blast
  then show "\<forall>b\<in>set (backoffs s').
            0 \<le> sint (bo_retries b) \<and> sint (bo_retries b) \<le> 19 \<and>
            sint (bo_try_count b) = 20 - sint (bo_retries b) \<and>
            sint (bo_pause_count b) =
              uint (jitter (bo_tsc b)) * 2 ^ nat (sint (bo_try_count b))"
    using sound_backoff_values by blast
  from sound_backoffs_increasing [OF snd]
  show "\<forall>b\<in>set (backoffs s'). \<forall>c\<in>set (backoffs s').
            jitter (bo_tsc b) = jitter (bo_tsc c) \<and>
            sint (bo_try_count b) < sint (bo_try_count c) \<longrightarrow>
            sint (bo_pause_count b) < sint (bo_pause_count c)" .
next
  show "\<forall>t1 t2. t1 < t2 \<and> t2 \<le> 20 \<longrightarrow>
            sint (pause_count_of tsc (of_nat t1)) < sint (pause_count_of tsc (of_nat t2))"
    by (simp add: pause_count_strict_mono)
next
  show "pauses (backoff E0 r0 s0) =
          pauses s0 + nat (sint (pause_count_of (fst (rte_rdtsc E0 s0)) (try_count_of r0)))"
    by simp
qed

theorem pause_count_exact_and_increasing_witness:
  "(\<exists>s'. rte_try_tm scenario_E 0 = Some (1, 17, s') \<and>
     map (\<lambda>b. (sint (bo_retries b), sint (bo_try_count b), sint (bo_pause_count b)))
       (backoffs s') = [(19, 1, 10), (18, 2, 20)] \<and>
     (\<forall>b\<in>set (backoffs s').
            0 \<le> sint (bo_retries b) \<and> sint (bo_retries b) \<le> 19 \<and>
            sint (bo_try_count b) = 20 - sint (bo_retries b) \<and>
            sint (bo_pause_count b) =
              uint (jitter (bo_tsc b)) * 2 ^ nat (sint (bo_try_count b))) \<and>
     (\<forall>b\<in>set (backoffs s'). \<forall>c\<in>set (backoffs s').
            jitter (bo_tsc b) = jitter (bo_tsc c) \<and>
            sint (bo_try_count b) < sint (bo_try_count c) \<longrightarrow>
            sint (bo_pause_count b) < sint (bo_pause_count c))) \<and>
   (\<exists>s. loop_head scenario_E 0 18 s \<and>
     map (\<lambda>b. (sint (bo_retries b), sint (bo_try_count b), sint (bo_pause_count b)))
       (backoffs s) = [(19, 1, 10), (18, 2, 20)] \<and>
     (\<forall>b\<in>set (backoffs s).
            0 \<le> sint (bo_retries b) \<and> sint (bo_retries b) \<le> 19 \<and>
            sint (bo_try_count b) = 20 - sint (bo_retries b) \<and>
            sint (bo_pause_count b) =
              uint (jitter (bo_tsc b)) * 2 ^ nat (sint (bo_try_count b))))"
proof -
  let ?h = "\<lparr>xbegins = 2, txn_reads = 0, wait_reads = 2, tscs = 2, pauses = 30,
        trace = [XBegin 4, Load 0 0, Rdtsc 0x9abcdef01234567d,
                 XBegin 4, Load 0 0, Rdtsc 0x9abcdef01234567d],
        backoffs = [\<lparr>bo_retries = 19, bo_try_count = 1, bo_tsc = 0x9abcdef01234567d,
                      bo_pause_count = 10\<rparr>,
                    \<lparr>bo_retries = 18, bo_try_count = 2, bo_tsc = 0x9abcdef01234567d,
                      bo_pause_count = 20\<rparr>]\<rparr>"
  note th = pause_count_exact_and_increasing
  note a = th [of scenario_E 0 1 17 _ 0, THEN conjunct1, THEN mp, OF disjI1, OF run_scenario_E]
  note b = th [of scenario_E 0 0 0 ?h 18, THEN conjunct1, THEN mp, OF disjI2,
      OF run_scenario_E_head]
  have "loop_head scenario_E 0 18 ?h \<and>
     map (\<lambda>b. (sint (bo_retries b), sint (bo_try_count b), sint (bo_pause_count b)))
       (backoffs ?h) = [(19, 1, 10), (18, 2, 20)] \<and>
     (\<forall>b\<in>set (backoffs ?h).
            0 \<le> sint (bo_retries b) \<and> sint (bo_retries b) \<le> 19 \<and>
            sint (bo_try_count b) = 20 - sint (bo_retries b) \<and>
            sint (bo_pause_count b) =
              uint (jitter (bo_tsc b)) * 2 ^ nat (sint (bo_try_count b)))"
    using b run_scenario_E_head by simp
  then have c: "\<exists>s. loop_head scenario_E 0 18 s \<and>
     map (\<lambda>b. (sint (bo_retries b), sint (bo_try_count b), sint (bo_pause_count b)))
       (backoffs s) = [(19, 1, 10), (18, 2, 20)] \<and>
     (\<forall>b\<in>set (backoffs s).
            0 \<le> sint (bo_retries b) \<and> sint (bo_retries b) \<le> 19 \<and>
            sint (bo_try_count b) = 20 - sint (bo_retries b) \<and>
            sint (bo_pause_count b) =
              uint (jitter (bo_tsc b)) * 2 ^ nat (sint (bo_try_count b)))"
    by (rule exI [where x = "?h"])
  from a run_scenario_E have d: "\<exists>s'. rte_try_tm scenario_E 0 = Some (1, 17, s') \<and>
     map (\<lambda>b. (sint (bo_retries b), sint (bo_try_count b), sint (bo_pause_count b)))
       (backoffs s') = [(19, 1, 10), (18, 2, 20)] \<and>
     (\<forall>b\<in>set (backoffs s').
            0 \<le> sint (bo_retries b) \<and> sint (bo_retries b) \<le> 19 \<and>
            sint (bo_try_count b) = 20 - sint (bo_retries b) \<and>
            sint (bo_pause_count b) =
              uint (jitter (bo_tsc b)) * 2 ^ nat (sint (bo_try_count b))) \<and>
     (\<forall>b\<in>set (backoffs s'). \<forall>c\<in>set (backoffs s').
            jitter (bo_tsc b) = jitter (bo_tsc c) \<and>
            sint (bo_try_count b) < sint (bo_try_count c) \<longrightarrow>
            sint (bo_pause_count b) < sint (bo_pause_count c))"
    by simp
  from d c show ?thesis by (rule conjI)
qed

section \<open>Claim C7: the jitter\<close>

text \<open>
  Claim C7. Whatever 64-bit value \<open>rte_rdtsc\<close> returns, \<open>(rte_rdtsc() & 0x7) | 1\<close> is one
  of 1, 3, 5, 7, so it is odd and not zero; the \<open>int\<close> it initialises holds the same
  number.
\<close>

theorem jitter_in_1_3_5_7:
  "jitter tsc \<in> {1, 3, 5, 7} \<and> odd (unat (jitter tsc)) \<and> jitter tsc \<noteq> 0 \<and>
   sint (ucast (jitter tsc) :: u32) = int (unat (jitter tsc))"
proof -
  have "t \<in> {1, 3, 5, 7} \<Longrightarrow>
          odd (unat t) \<and> t \<noteq> 0 \<and> sint (ucast t :: u32) = int (unat t)" for t :: u64
    by (elim insertE emptyE) simp_all
  from this [OF jitter_cases] jitter_cases show ?thesis by blast
qed

section \<open>Claim C8: the flag is only read\<close>

text \<open>
  Claim C8. \<open>rte_try_tm\<close> performs no store. When a run returns, every event of its
  trace is an \<open>XBEGIN\<close>, an \<open>XABORT\<close>, a \<open>rdtsc\<close> or a load, and every load is from
  \<open>lock\<close>; replaying the trace on any memory leaves that memory, and so the word at
  \<open>lock\<close>, as it was. The same holds, in every run, returning or not, of the trace at
  every loop head and of the trace after any number \<open>k\<close> of loads of the busy-wait
  that the pass from that loop head may enter (after the \<open>XBEGIN\<close> alone, or after
  the \<open>XBEGIN\<close>, the load inside the transaction and the \<open>XABORT\<close>).
\<close>

theorem lock_flag_only_read:
  "(rte_try_tm E lock = Some (ret, r', s') \<longrightarrow>
      (\<forall>e\<in>set (trace s'). reads_only lock e) \<and>
      fold apply_event (trace s') m = m \<and>
      fold apply_event (trace s') m lock = m lock) \<and>
   (loop_head E lock retries s \<longrightarrow>
      (\<forall>e\<in>set (trace s). reads_only lock e) \<and>
      fold apply_event (trace s) m = m \<and>
      (\<forall>e\<in>set (trace (spun E lock k (begun E s))). reads_only lock e) \<and>
      fold apply_event (trace (spun E lock k (begun E s))) m = m \<and>
      (\<forall>e\<in>set (trace (spun E lock k (aborted E lock s))). reads_only lock e) \<and>
      fold apply_event (trace (spun E lock k (aborted E lock s))) m = m)"
proof (intro conjI impI)
  assume run: "rte_try_tm E lock = Some (ret, r', s')"
  from try_loop_trace [of E lock RTE_RTM_MAX_RETRIES hw0 ret r' s'] run
  have a: "\<forall>e\<in>set (trace s'). reads_only lock e"
    by (auto simp: rte_try_tm_def hw0_def)
  from fold_apply_reads_only [OF a] a
  show "\<forall>e\<in>set (trace s'). reads_only lock e" "fold apply_event (trace s') m = m"
    "fold apply_event (trace s') m lock = m lock"
    by simp_all
next
  assume h: "loop_head E lock retries s"
  from loop_head_inv [OF h] have a: "\<forall>e\<in>set (trace s). reads_only lock e" by simp
  then have b: "\<forall>e\<in>set (trace (begun E s)). reads_only lock e"
    and c: "\<forall>e\<in>set (trace (aborted E lock s)). reads_only lock e"
    by simp_all
  note sb = trace_spun [OF b, of E k] and sc = trace_spun [OF c, of E k]
  from a show "\<forall>e\<in>set (trace s). reads_only lock e" .
  from fold_apply_reads_only [OF a] show "fold apply_event (trace s) m = m" .
  from sb show "\<forall>e\<in>set (trace (spun E lock k (begun E s))). reads_only lock e" .
  from fold_apply_reads_only [OF sb]
  show "fold apply_event (trace (spun E lock k (begun E s))) m = m" .
  from sc show "\<forall>e\<in>set (trace (spun E lock k (aborted E lock s))). reads_only lock e" .
  from fold_apply_reads_only [OF sc]
  show "fold apply_event (trace (spun E lock k (aborted E lock s))) m = m" .
qed

theorem lock_flag_only_read_witness:
  "(\<exists>s'. rte_try_tm scenario_E 0 = Some (1, 17, s') \<and>
     trace s' = [XBegin 4, Load 0 0, Rdtsc 0x9abcdef01234567d,
                 XBegin 4, Load 0 0, Rdtsc 0x9abcdef01234567d,
                 XBegin 0xffffffff, Load 0 0] \<and>
     (\<forall>e\<in>set (trace s'). reads_only 0 e) \<and>
     fold apply_event (trace s') (\<lambda>a. 0) = (\<lambda>a. 0) \<and>
     fold apply_event (trace s') (\<lambda>a. 0) 0 = 0) \<and>
   rte_try_tm scenario_B 0 = None \<and>
   loop_head scenario_B 0 RTE_RTM_MAX_RETRIES hw0 \<and>
   trace (spun scenario_B 0 2 (aborted scenario_B 0 hw0)) =
     [XBegin RTE_XBEGIN_STARTED, Load 0 1, XAbort RTE_XABORT_LOCK_BUSY, Load 0 1, Load 0 1] \<and>
   list_all (reads_only 0) (trace (spun scenario_B 0 2 (aborted scenario_B 0 hw0))) \<and>
   fold apply_event (trace (spun scenario_B 0 2 (aborted scenario_B 0 hw0))) (\<lambda>a. 0) = (\<lambda>a. 0)"
proof -
  note a = lock_flag_only_read [of scenario_E 0 1 17 _ "\<lambda>a. 0" 0 hw0 0, THEN conjunct1,
      rule_format, OF run_scenario_E]
  note b = lock_flag_only_read [of scenario_B 0 0 0 hw0 "\<lambda>a. 0" RTE_RTM_MAX_RETRIES hw0 2,
      THEN conjunct2, THEN mp, OF run_scenario_B_head]
  have t: "trace (spun scenario_B 0 2 (aborted scenario_B 0 hw0)) =
     [XBegin RTE_XBEGIN_STARTED, Load 0 1, XAbort RTE_XABORT_LOCK_BUSY, Load 0 1, Load 0 1]"
    by (simp add: spun_def scenario_B_def hw0_def upt_rec numeral_2_eq_2)
  from a run_scenario_E have c: "\<exists>s'. rte_try_tm scenario_E 0 = Some (1, 17, s') \<and>
     trace s' = [XBegin 4, Load 0 0, Rdtsc 0x9abcdef01234567d,
                 XBegin 4, Load 0 0, Rdtsc 0x9abcdef01234567d,
                 XBegin 0xffffffff, Load 0 0] \<and>
     (\<forall>e\<in>set (trace s'). reads_only 0 e) \<and>
     fold apply_event (trace s') (\<lambda>a. 0) = (\<lambda>a. 0) \<and>
     fold apply_event (trace s') (\<lambda>a. 0) 0 = 0"
    by simp
  from b have d: "list_all (reads_only 0) (trace (spun scenario_B 0 2 (aborted scenario_B 0 hw0)))"
    and e: "fold apply_event (trace (spun scenario_B 0 2 (aborted scenario_B 0 hw0))) (\<lambda>a. 0) = (\<lambda>a. 0)"
    by (simp_all add: list_all_iff)
  from c run_scenario_B run_scenario_B_head t d e show ?thesis by (intro conjI)
qed

section \<open>Claim C9: the cycle counter\<close>

text \<open>
  Claim C9. \<open>__dpdk_rdtsc\<close> returns the 64-bit value whose low 32 bits are the half the
  instruction delivered in EAX (\<open>lo_32\<close>) and whose high 32 bits are the half delivered
  in EDX (\<open>hi_32\<close>): read as an unsigned number it is \<open>hi * 2^32 + lo\<close>.
\<close>

theorem dpdk_rdtsc_combines_halves:
  "unat (dpdk_rdtsc lo_32 hi_32) = unat hi_32 * 2 ^ 32 + unat lo_32 \<and>
   ucast (dpdk_rdtsc lo_32 hi_32) = lo_32 \<and>
   ucast (drop_bit 32 (dpdk_rdtsc lo_32 hi_32)) = hi_32"
  by (simp only: unat_dpdk_rdtsc low_half_dpdk_rdtsc high_half_dpdk_rdtsc simp_thms)

section \<open>Claim C10: returning 1\<close>

text \<open>
  Claim C10. If \<open>rte_try_tm\<close> returns 1, the last things it did were an \<open>XBEGIN\<close> that
  reported STARTED and, inside that transaction, a load of the flag that gave 0: the
  trace ends with these two events, and they are the latest entries of the two
  scripts. A pass whose transaction started and whose load of the flag gave a
  nonzero value never ends in \<open>return 1\<close>: the \<open>XABORT\<close> does not fall through to
  line 81, and if the pass ends at all it ends in \<open>continue\<close> after a back-off.
\<close>

theorem returns_1_only_after_reading_zero:
  "(rte_try_tm E lock = Some (1, r', s') \<longrightarrow>
      (\<exists>tr. trace s' = tr @ [XBegin RTE_XBEGIN_STARTED, Load lock 0]) \<and>
      0 < xbegins s' \<and> xbegin_at E (xbegins s' - 1) = RTE_XBEGIN_STARTED \<and>
      0 < txn_reads s' \<and> txn_lock_at E (txn_reads s' - 1) = 0) \<and>
   (xbegin_at E (xbegins s) = RTE_XBEGIN_STARTED \<and> txn_lock_at E (txn_reads s) \<noteq> 0 \<longrightarrow>
      iteration E lock retries s \<noteq> Some (Return1 s1) \<and>
      (\<forall>oc. iteration E lock retries s = Some oc \<longrightarrow>
         (\<exists>s2. oc = Continue (backoff E retries s2)) \<and>
         (\<exists>tr. trace (state_of oc) =
            trace s @ [XBegin RTE_XBEGIN_STARTED, Load lock (txn_lock_at E (txn_reads s)),
                       XAbort RTE_XABORT_LOCK_BUSY] @ tr)))"
proof (intro conjI impI allI)
  assume "rte_try_tm E lock = Some (1, r', s')"
  from try_loop_returns_1 [of E lock RTE_RTM_MAX_RETRIES hw0 r' s'] this
  obtain s0 tr where s0: "s' = entered E lock s0"
    "xbegin_at E (xbegins s0) = RTE_XBEGIN_STARTED" "txn_lock_at E (txn_reads s0) = 0"
    by (auto simp: rte_try_tm_def)
  from s0 have "trace s' = trace s0 @ [XBegin RTE_XBEGIN_STARTED, Load lock 0]" by simp
  then show "\<exists>tr. trace s' = tr @ [XBegin RTE_XBEGIN_STARTED, Load lock 0]" by blast
  from s0 show "0 < xbegins s'" "xbegin_at E (xbegins s' - 1) = RTE_XBEGIN_STARTED"
    "0 < txn_reads s'" "txn_lock_at E (txn_reads s' - 1) = 0"
    by simp_all
next
  assume h: "xbegin_at E (xbegins s) = RTE_XBEGIN_STARTED \<and> txn_lock_at E (txn_reads s) \<noteq> 0"
  then show "iteration E lock retries s \<noteq> Some (Return1 s1)"
    using iteration_Return1D [of E lock retries s s1] by auto
  fix oc assume oc: "iteration E lock retries s = Some oc"
  then show "\<exists>s2. oc = Continue (backoff E retries s2)"
    using h by (cases rule: iteration_cases) auto
  from oc show "\<exists>tr. trace (state_of oc) =
      trace s @ [XBegin RTE_XBEGIN_STARTED, Load lock (txn_lock_at E (txn_reads s)),
                 XAbort RTE_XABORT_LOCK_BUSY] @ tr"
    using h by (cases rule: iteration_cases) (auto simp del: upt_Suc)
qed

theorem returns_1_only_after_reading_zero_witness:
  "(\<exists>s'. rte_try_tm scenario_E 0 = Some (1, 17, s') \<and>
      (\<exists>tr. trace s' = tr @ [XBegin RTE_XBEGIN_STARTED, Load 0 0]) \<and>
      xbegins s' = 3 \<and> xbegin_at scenario_E 2 = RTE_XBEGIN_STARTED \<and>
      txn_reads s' = 1 \<and> txn_lock_at scenario_E 0 = 0) \<and>
   xbegin_at scenario_B_released (xbegins hw0) = RTE_XBEGIN_STARTED \<and>
   txn_lock_at scenario_B_released (txn_reads hw0) \<noteq> 0 \<and>
   iteration scenario_B_released 0 19 hw0 \<noteq> Some (Return1 hw0) \<and>
   (\<exists>s2. iteration scenario_B_released 0 19 hw0 =
            Some (Continue (backoff scenario_B_released 19 s2)))"
proof -
  note a = returns_1_only_after_reading_zero [of scenario_E 0 17 _ hw0 0 hw0, THEN conjunct1,
      rule_format, OF run_scenario_E]
  have x: "xbegin_at scenario_B_released (xbegins hw0) = RTE_XBEGIN_STARTED"
    and l: "txn_lock_at scenario_B_released (txn_reads hw0) \<noteq> 0"
    by (simp_all add: scenario_B_released_def)
  note b = returns_1_only_after_reading_zero [of scenario_B_released 0 0 hw0 hw0 19 hw0,
      THEN conjunct2, rule_format, OF conjI [OF x l]]
  have e: "ends_at scenario_B_released (aborted scenario_B_released 0 hw0) 0"
    by (simp add: ends_at_def scenario_B_released_def)
  have it: "iteration scenario_B_released 0 19 hw0 =
          Some (Continue (backoff scenario_B_released 19
            (waited scenario_B_released 0 0 (aborted scenario_B_released 0 hw0))))"
    unfolding iteration_lock_busy [OF x l] on_abort_ends [OF e]
    by (simp add: transient_lock_busy)
  from b it have c: "\<exists>s2. iteration scenario_B_released 0 19 hw0 =
            Some (Continue (backoff scenario_B_released 19 s2))"
    by blast
  from b have d: "iteration scenario_B_released 0 19 hw0 \<noteq> Some (Return1 hw0)" by blast
  from a run_scenario_E x l c d show ?thesis by (simp add: scenario_E_def)
qed

end
